theory Spec2Isabelle
  imports Complex_Main
begin

section \<open>Data model of \<open>Prion.hpp\<close>\<close>

text \<open>
  The class \<open>HeatNonLinear\<close> is a record of its data members, every member function takes
  the object and returns it updated.  The value of a \<open>double\<close> is a \<^typ>\<open>real\<close>.  Where
  the code only computes with doubles (the entries of vectors and matrices in the assembly
  and in the Newton update), sums and products are taken exactly.  Where the code compares
  doubles, or a claim rests on an equality of doubles, the arithmetic of the machine is
  kept: the diffusivity tensor and the simulation time are computed with the rounding of
  binary64, and the norm of the residual, on which the Newton loop branches, is a number
  or NaN.  Objects of deal.II with a fixed
  number of components (\<open>Point<3>\<close>, \<open>Tensor<1,3>\<close>, \<open>Tensor<2,3>\<close>) are functions of their
  component indices, read only below \<open>dim\<close>; distributed vectors and matrices are functions
  of global degree-of-freedom indices.
\<close>

definition dim :: nat where
  "dim = 3"

type_synonym point = "nat \<Rightarrow> real"
type_synonym tensor1 = "nat \<Rightarrow> real"
type_synonym tensor2 = "nat \<Rightarrow> nat \<Rightarrow> real"
type_synonym vector = "nat \<Rightarrow> real"
type_synonym matrix = "nat \<times> nat \<Rightarrow> real"

subsection \<open>Doubles\<close>

text \<open>Rounding to the nearest integer, ties to the even one.\<close>

definition round_even :: "real \<Rightarrow> int" where
  "round_even x =
     (if x - of_int \<lfloor>x\<rfloor> < 1 / 2 then \<lfloor>x\<rfloor>
      else if x - of_int \<lfloor>x\<rfloor> > 1 / 2 then \<lfloor>x\<rfloor> + 1
      else if even \<lfloor>x\<rfloor> then \<lfloor>x\<rfloor> else \<lfloor>x\<rfloor> + 1)"

text \<open>
  The rounding of binary64: a number \<open>x\<close> with \<open>2^k \<le> |x| < 2^(k+1)\<close> is rounded to the
  nearest multiple of \<open>2^(k-52)\<close>, which leaves 53 significant bits.  The range of the
  exponent is not limited: there is neither overflow nor underflow.
\<close>

definition double_round :: "real \<Rightarrow> real" where
  "double_round x =
     (if x = 0 then 0
      else of_int (round_even (x / 2 powi (\<lfloor>log 2 \<bar>x\<bar>\<rfloor> - 52))) *
           2 powi (\<lfloor>log 2 \<bar>x\<bar>\<rfloor> - 52))"

definition fadd :: "real \<Rightarrow> real \<Rightarrow> real" where
  "fadd a b = double_round (a + b)"

definition fsub :: "real \<Rightarrow> real \<Rightarrow> real" where
  "fsub a b = double_round (a - b)"

definition fmul :: "real \<Rightarrow> real \<Rightarrow> real" where
  "fmul a b = double_round (a * b)"

text \<open>
  A double on which the code branches: a number, or NaN (as \<open>0.0 / 0.0\<close> is).
  \<open>exceeds x t\<close> is the comparison \<open>x > t\<close> of the code, which is false when \<open>x\<close> is NaN;
  \<open>scaled c x\<close> is the product \<open>c * x\<close>.
\<close>

datatype double_or_nan = Number real | NaN

definition exceeds :: "double_or_nan \<Rightarrow> real \<Rightarrow> bool" where
  "exceeds x t = (case x of Number a \<Rightarrow> a > t | NaN \<Rightarrow> False)"

definition scaled :: "real \<Rightarrow> double_or_nan \<Rightarrow> double_or_nan" where
  "scaled c x = (case x of Number a \<Rightarrow> Number (c * a) | NaN \<Rightarrow> NaN)"

text \<open>What reaches \<open>pcout\<close>, the \<open>TimerOutput\<close> and the output directory, in order.\<close>

datatype event =
    Print string
  | Timer_enter string
  | Timer_leave string
  | Newton_line nat nat double_or_nan
  | Below_tolerance
  | CG_iterations nat
  | Step_line nat real
  | Files_written string real vector

text \<open>The exceptions that can cross the member functions; none of them is caught.\<close>

datatype exception =
    NoConvergence nat real
  | Length_error

record HeatNonLinear =
  T :: real
  N :: nat
  r :: nat
  deltat :: real
  time :: real
  axon_direction :: "real list"
  d_ext :: real
  d_axn :: real
  D :: tensor2
  jacobian_matrix :: matrix
  residual_vector :: vector
  delta_owned :: vector
  solution_owned :: vector
  solution :: vector
  solution_old :: vector
  trace :: "event list"

subsection \<open>Coefficient functions\<close>

text \<open>\<open>FunctionAlpha::value\<close> ignores both of its arguments.\<close>

definition FunctionAlpha_value :: "point \<Rightarrow> nat \<Rightarrow> real" where
  "FunctionAlpha_value p component = 2.0"

definition FunctionU0_value :: "point \<Rightarrow> nat \<Rightarrow> real" where
  "FunctionU0_value p component =
     (if p 0 > 49 \<and> p 0 < 51 \<and> p 1 > 79 \<and> p 1 < 81 \<and> p 2 > 69 \<and> p 2 < 71
      then 1.0 * exp (- ((2 * (p 0 - 50)) ^ 2) - ((2 * (p 1 - 80)) ^ 2) - ((2 * (p 2 - 70)) ^ 2))
      else 0.0)"

subsection \<open>Diffusivity tensor and constructor\<close>

text \<open>
  \<open>set_up_diffusivity\<close>: the result starts as the zero tensor and the two nested loops
  assign each of its \<open>dim * dim\<close> entries once.
\<close>

definition diffusivity_entry :: "real \<Rightarrow> real \<Rightarrow> real list \<Rightarrow> nat \<Rightarrow> nat \<Rightarrow> real" where
  "diffusivity_entry dext daxn n i j =
     (if i \<noteq> j then fmul (fmul daxn (n ! i)) (n ! j)
      else fadd dext (fmul (fmul daxn (n ! i)) (n ! j)))"

definition set_up_diffusivity :: "real \<Rightarrow> real \<Rightarrow> real list \<Rightarrow> tensor2" where
  "set_up_diffusivity dext daxn n =
     fold (\<lambda>i result.
        fold (\<lambda>j result. result(i := (result i)(j := diffusivity_entry dext daxn n i j)))
          [0..<dim] result)
       [0..<dim] (\<lambda>i j. 0)"

text \<open>
  The constructor stores its four arguments, the default member initialisers give
  \<open>axon_direction\<close>, \<open>d_ext\<close> and \<open>d_axn\<close>, and the body computes \<open>D\<close>.  Vectors and the
  matrix are empty until \<open>setup\<close>, \<open>time\<close> is set by \<open>solve\<close>.
\<close>

definition construct :: "nat \<Rightarrow> nat \<Rightarrow> real \<Rightarrow> real \<Rightarrow> HeatNonLinear" where
  "construct N' r' T' deltat' =
     \<lparr> T = T', N = N', r = r', deltat = deltat', time = 0,
       axon_direction = [1, 1, 1], d_ext = 5, d_axn = 0,
       D = set_up_diffusivity 5 0 [1, 1, 1],
       jacobian_matrix = (\<lambda>_. 0), residual_vector = (\<lambda>_. 0), delta_owned = (\<lambda>_. 0),
       solution_owned = (\<lambda>_. 0), solution = (\<lambda>_. 0), solution_old = (\<lambda>_. 0),
       trace = [] \<rparr>"

section \<open>The collaborators from deal.II\<close>

text \<open>
  A cell of \<open>dof_handler.active_cell_iterators()\<close> together with what \<open>fe_values.reinit\<close>
  makes available on it: the values and gradients of the shape functions at the
  quadrature nodes, the weights \<open>JxW\<close>, the nodes themselves, and the evaluation of a
  finite element function (given by its vector of coefficients) at the nodes.
\<close>

record cell =
  is_locally_owned :: bool
  get_dof_indices :: "nat list"
  shape_value :: "nat \<Rightarrow> nat \<Rightarrow> real"
  shape_grad :: "nat \<Rightarrow> nat \<Rightarrow> tensor1"
  JxW :: "nat \<Rightarrow> real"
  quadrature_point :: "nat \<Rightarrow> point"
  get_function_values :: "vector \<Rightarrow> nat \<Rightarrow> real"
  get_function_gradients :: "vector \<Rightarrow> nat \<Rightarrow> tensor1"

text \<open>
  The library side of a run, as one process sees it: the mesh with its finite element
  space, the synchronisation \<open>compress(VectorOperation::add)\<close>, the norm of a distributed
  vector, interpolation of a function at the support points, and the preconditioned
  conjugate gradient solver.  \<open>solver_solve m tol A x b\<close> stands for
  \<open>SolverCG(SolverControl(m, tol)).solve(A, x, b, SSOR(A))\<close> started from \<open>x\<close>: it
  returns the solution with \<open>last_step()\<close>, or throws \<open>SolverControl::NoConvergence\<close>
  when the control gives up.
\<close>

record deal_II =
  active_cells :: "cell list"
  dofs_per_cell :: nat
  n_q :: nat
  compress_matrix :: "matrix \<Rightarrow> matrix"
  compress_vector :: "vector \<Rightarrow> vector"
  l2_norm :: "vector \<Rightarrow> double_or_nan"
  interpolate :: "(point \<Rightarrow> nat \<Rightarrow> real) \<Rightarrow> vector"
  solver_solve ::
    "nat \<Rightarrow> double_or_nan \<Rightarrow> matrix \<Rightarrow> vector \<Rightarrow> vector \<Rightarrow> exception + vector \<times> nat"

text \<open>\<open>Tensor<1,3> * Tensor<2,3>\<close> contracts the adjacent indices, \<open>Tensor<1,3> * Tensor<1,3>\<close>
  is the scalar product.\<close>

definition contract :: "tensor1 \<Rightarrow> tensor2 \<Rightarrow> tensor1" where
  "contract g A = (\<lambda>b. \<Sum>a\<leftarrow>[0..<dim]. g a * A a b)"

definition scalar_product :: "tensor1 \<Rightarrow> tensor1 \<Rightarrow> real" where
  "scalar_product g h = (\<Sum>a\<leftarrow>[0..<dim]. g a * h a)"

text \<open>\<open>A.add(dof_indices, cell_matrix)\<close> and \<open>v.add(dof_indices, cell_vector)\<close>.\<close>

definition matrix_add :: "nat list \<Rightarrow> matrix \<Rightarrow> matrix \<Rightarrow> matrix" where
  "matrix_add dof_indices cell_matrix A =
     fold (\<lambda>i A.
        fold (\<lambda>j A. A((dof_indices ! i, dof_indices ! j) :=
                        A (dof_indices ! i, dof_indices ! j) + cell_matrix (i, j)))
          [0..<length dof_indices] A)
       [0..<length dof_indices] A"

definition vector_add :: "nat list \<Rightarrow> vector \<Rightarrow> vector \<Rightarrow> vector" where
  "vector_add dof_indices cell_vector v =
     fold (\<lambda>i v. v(dof_indices ! i := v (dof_indices ! i) + cell_vector i))
       [0..<length dof_indices] v"

section \<open>\<open>Prion.cpp\<close>\<close>

subsection \<open>\<open>setup\<close>\<close>

text \<open>Reading and partitioning the mesh is the library's part; what \<open>setup\<close> leaves in
  the object is the zero matrix and zero vectors of the right layout.\<close>

definition setup_problem :: "deal_II \<Rightarrow> HeatNonLinear \<Rightarrow> HeatNonLinear" where
  "setup_problem lib st =
     (let st = st\<lparr>trace := trace st @ [Timer_enter ''Mesh initialization'',
                 Print ''Initializing the mesh'', Timer_leave ''Mesh initialization'',
                 Print ''Initializing the finite element space'',
                 Timer_enter ''Initialize DoFs'', Print ''Initializing the DoF handler'',
                 Timer_leave ''Initialize DoFs'', Print ''Initializing the linear system'']\<rparr>;
          st = st\<lparr>jacobian_matrix := (\<lambda>_. 0)\<rparr>;
          st = st\<lparr>residual_vector := (\<lambda>_. 0)\<rparr>;
          st = st\<lparr>solution_owned := (\<lambda>_. 0)\<rparr>;
          st = st\<lparr>delta_owned := (\<lambda>_. 0)\<rparr>;
          st = st\<lparr>solution := (\<lambda>_. 0)\<rparr>;
          st = st\<lparr>solution_old := solution st\<rparr>
      in st)"

subsection \<open>\<open>assemble_system\<close>\<close>

text \<open>The three updates (A.1), (A.2), (A.3) of one entry of the local matrix.\<close>

definition cell_matrix_update ::
    "HeatNonLinear \<Rightarrow> cell \<Rightarrow> real \<Rightarrow> (nat \<Rightarrow> real) \<Rightarrow> nat \<Rightarrow> nat \<Rightarrow> nat \<Rightarrow> matrix \<Rightarrow> matrix" where
  "cell_matrix_update st c alpha_loc solution_loc q i j cell_matrix =
     (let cell_matrix = cell_matrix((i, j) := cell_matrix (i, j) +
            shape_value c i q * shape_value c j q / deltat st * JxW c q);
          cell_matrix = cell_matrix((i, j) := cell_matrix (i, j) +
            scalar_product (contract (shape_grad c i q) (D st)) (shape_grad c j q) * JxW c q);
          cell_matrix = cell_matrix((i, j) := cell_matrix (i, j) -
            shape_value c i q * alpha_loc * (1 - 2 * solution_loc q) *
            shape_value c j q * JxW c q)
      in cell_matrix)"

text \<open>The three updates (R.1), (R.2), (R.3) of one entry of the local residual.\<close>

definition cell_residual_update ::
    "HeatNonLinear \<Rightarrow> cell \<Rightarrow> real \<Rightarrow> (nat \<Rightarrow> real) \<Rightarrow> (nat \<Rightarrow> tensor1) \<Rightarrow> (nat \<Rightarrow> real) \<Rightarrow>
       nat \<Rightarrow> nat \<Rightarrow> vector \<Rightarrow> vector" where
  "cell_residual_update st c alpha_loc solution_loc solution_gradient_loc solution_old_loc
       q i cell_residual =
     (let cell_residual = cell_residual(i := cell_residual i -
            shape_value c i q * (solution_loc q - solution_old_loc q) / deltat st * JxW c q);
          cell_residual = cell_residual(i := cell_residual i -
            scalar_product (contract (shape_grad c i q) (D st)) (solution_gradient_loc q) *
            JxW c q);
          cell_residual = cell_residual(i := cell_residual i +
            shape_value c i q * (alpha_loc * solution_loc q * (1 - solution_loc q)) * JxW c q)
      in cell_residual)"

text \<open>The loops over \<open>q\<close>, \<open>i\<close> and \<open>j\<close> on one cell, from zero local matrix and residual.\<close>

definition assemble_cell :: "deal_II \<Rightarrow> HeatNonLinear \<Rightarrow> cell \<Rightarrow> matrix \<times> vector" where
  "assemble_cell lib st c =
     (let solution_loc = get_function_values c (solution st);
          solution_gradient_loc = get_function_gradients c (solution st);
          solution_old_loc = get_function_values c (solution_old st)
      in fold (\<lambda>q (cell_matrix, cell_residual).
           let alpha_loc = FunctionAlpha_value (quadrature_point c q) 0
           in fold (\<lambda>i (cell_matrix, cell_residual).
                (fold (cell_matrix_update st c alpha_loc solution_loc q i)
                   [0..<dofs_per_cell lib] cell_matrix,
                 cell_residual_update st c alpha_loc solution_loc solution_gradient_loc
                   solution_old_loc q i cell_residual))
              [0..<dofs_per_cell lib] (cell_matrix, cell_residual))
         [0..<n_q lib] (\<lambda>_. 0, \<lambda>_. 0))"

definition assemble_system :: "deal_II \<Rightarrow> HeatNonLinear \<Rightarrow> HeatNonLinear" where
  "assemble_system lib st =
     (let st = st\<lparr>jacobian_matrix := (\<lambda>_. 0)\<rparr>;
          st = st\<lparr>residual_vector := (\<lambda>_. 0)\<rparr>;
          st = fold (\<lambda>c st.
                 if \<not> is_locally_owned c then st
                 else (case assemble_cell lib st c of (cell_matrix, cell_residual) \<Rightarrow>
                   st\<lparr>jacobian_matrix :=
                        matrix_add (get_dof_indices c) cell_matrix (jacobian_matrix st),
                      residual_vector :=
                        vector_add (get_dof_indices c) cell_residual (residual_vector st)\<rparr>))
               (active_cells lib) st
      in st\<lparr>jacobian_matrix := compress_matrix lib (jacobian_matrix st),
            residual_vector := compress_vector lib (residual_vector st)\<rparr>)"

subsection \<open>\<open>solve_linear_system\<close>\<close>

text \<open>The exception of the solver is not caught; the iteration count is printed and
  \<open>delta_owned\<close> is overwritten only when the solver returns.\<close>

definition solve_linear_system :: "deal_II \<Rightarrow> HeatNonLinear \<Rightarrow> exception + HeatNonLinear" where
  "solve_linear_system lib st =
     (case solver_solve lib 1000 (scaled (1 / 10 ^ 6) (l2_norm lib (residual_vector st)))
             (jacobian_matrix st) (delta_owned st) (residual_vector st) of
        Inl e \<Rightarrow> Inl e
      | Inr (x, last_step) \<Rightarrow>
          Inr (st\<lparr>delta_owned := x, trace := trace st @ [CG_iterations last_step]\<rparr>))"

subsection \<open>\<open>solve_newton\<close>\<close>

definition n_max_iters :: nat where
  "n_max_iters = 1000"

definition residual_tolerance :: real where
  "residual_tolerance = 1 / 10 ^ 10"

text \<open>One pass through the body of the \<open>while\<close> loop, up to but not including \<open>++n_iter\<close>;
  it returns the object and the new value of the local \<open>residual_norm\<close>.\<close>

definition newton_body ::
    "deal_II \<Rightarrow> HeatNonLinear \<Rightarrow> nat \<Rightarrow> exception + HeatNonLinear \<times> double_or_nan" where
  "newton_body lib st n_iter =
     (let st = st\<lparr>trace := trace st @ [Timer_enter ''Assemble system'']\<rparr>;
          st = assemble_system lib st;
          st = st\<lparr>trace := trace st @ [Timer_leave ''Assemble system'']\<rparr>;
          residual_norm = l2_norm lib (residual_vector st);
          st = st\<lparr>trace := trace st @ [Newton_line n_iter n_max_iters residual_norm]\<rparr>
      in if exceeds residual_norm residual_tolerance then
           (case solve_linear_system lib (st\<lparr>trace := trace st @ [Timer_enter ''Solve system'']\<rparr>) of
              Inl e \<Rightarrow> Inl e
            | Inr st \<Rightarrow>
               (let st = st\<lparr>trace := trace st @ [Timer_leave ''Solve system'']\<rparr>;
                    st = st\<lparr>solution_owned := (\<lambda>k. solution_owned st k + delta_owned st k)\<rparr>;
                    st = st\<lparr>solution := solution_owned st\<rparr>
                in Inr (st, residual_norm)))
         else Inr (st\<lparr>trace := trace st @ [Below_tolerance]\<rparr>, residual_norm))"

function newton_loop ::
    "deal_II \<Rightarrow> HeatNonLinear \<Rightarrow> nat \<Rightarrow> double_or_nan \<Rightarrow>
       exception + HeatNonLinear \<times> nat \<times> double_or_nan" where
  "newton_loop lib st n_iter residual_norm =
     (if n_iter < n_max_iters \<and> exceeds residual_norm residual_tolerance then
        (case newton_body lib st n_iter of
           Inl e \<Rightarrow> Inl e
         | Inr (st', residual_norm') \<Rightarrow> newton_loop lib st' (n_iter + 1) residual_norm')
      else Inr (st, n_iter, residual_norm))"
  by pat_completeness auto
termination
  by (relation "measure (\<lambda>(lib, st, n_iter, residual_norm). n_max_iters - n_iter)") auto

definition solve_newton :: "deal_II \<Rightarrow> HeatNonLinear \<Rightarrow> exception + HeatNonLinear" where
  "solve_newton lib st =
     (case newton_loop lib st 0 (Number (residual_tolerance + 1)) of
        Inl e \<Rightarrow> Inl e
      | Inr (st', n_iter, residual_norm) \<Rightarrow> Inr st')"

subsection \<open>\<open>output\<close>\<close>

definition digit_char :: "nat \<Rightarrow> char" where
  "digit_char d = ''0123456789'' ! d"

text \<open>\<open>std::to_string\<close> of an \<open>unsigned int\<close>.\<close>

fun to_string :: "nat \<Rightarrow> string" where
  "to_string n =
     (if n < 10 then [digit_char n] else to_string (n div 10) @ [digit_char (n mod 10)])"

text \<open>
  The padding \<open>std::string(4 - output_file_name.size(), '0')\<close> is computed in \<open>size_t\<close>:
  with more than four digits the count wraps around to more than \<open>max_size()\<close> and the
  constructor throws \<open>std::length_error\<close>.  Otherwise the files \<open>output-XXXX.h5\<close> and
  \<open>output-XXXX.xdmf\<close> are written with the field \<open>solution\<close> and the time.
\<close>

definition write_output :: "HeatNonLinear \<Rightarrow> nat \<Rightarrow> real \<Rightarrow> exception + HeatNonLinear" where
  "write_output st time_step time' =
     (let output_file_name = to_string time_step
      in if length output_file_name > 4 then Inl Length_error
         else (let output_file_name =
                     ''output-'' @ replicate (4 - length output_file_name) (CHR ''0'') @
                     output_file_name
               in Inr (st\<lparr>trace := trace st @
                            [Files_written output_file_name time' (solution st)]\<rparr>)))"

subsection \<open>\<open>solve\<close>\<close>

text \<open>
  The loop of \<open>solve\<close> runs on the object and the two local counters \<open>time_step\<close> and
  \<open>tt\<close>, which are \<open>unsigned int\<close> and wrap at \<open>2 ^ 32\<close>.  \<open>time_step_body\<close> is one pass
  through its body.
\<close>

definition time_step_body ::
    "deal_II \<Rightarrow> HeatNonLinear \<times> nat \<times> nat \<Rightarrow> exception + HeatNonLinear \<times> nat \<times> nat" where
  "time_step_body lib s =
     (case s of (st, time_step, tt) \<Rightarrow>
       (let st = st\<lparr>time := fadd (time st) (deltat st)\<rparr>;
            time_step = (time_step + 1) mod 2 ^ 32;
            st = st\<lparr>solution_old := solution st\<rparr>;
            st = st\<lparr>trace := trace st @ [Step_line time_step (time st)]\<rparr>
        in case solve_newton lib st of
             Inl e \<Rightarrow> Inl e
           | Inr st \<Rightarrow>
               if time_step mod 30 = 0 then
                 (case write_output (st\<lparr>trace := trace st @ [Timer_enter ''Writing'']\<rparr>) tt (time st) of
                    Inl e \<Rightarrow> Inl e
                  | Inr st \<Rightarrow>
                      Inr (st\<lparr>trace := trace st @ [Timer_leave ''Writing'', Print []]\<rparr>,
                           time_step, (tt + 1) mod 2 ^ 32))
               else Inr (st\<lparr>trace := trace st @ [Print []]\<rparr>, time_step, tt)))"

text \<open>The loop need not end (\<open>deltat \<le> 0\<close>): not returning is the value \<open>None\<close>.\<close>

partial_function (option) time_loop ::
    "deal_II \<Rightarrow> HeatNonLinear \<times> nat \<times> nat \<Rightarrow> (exception + HeatNonLinear \<times> nat \<times> nat) option" where
  "time_loop lib s =
     (if time (fst s) < fsub (T (fst s)) (fmul 0.5 (deltat (fst s))) then
        (case time_step_body lib s of
           Inl e \<Rightarrow> Some (Inl e)
         | Inr s' \<Rightarrow> time_loop lib s')
      else Some (Inr s))"

definition solve :: "deal_II \<Rightarrow> HeatNonLinear \<Rightarrow> (exception + HeatNonLinear \<times> nat \<times> nat) option" where
  "solve lib st =
     (let st = st\<lparr>trace := trace st @ [Print ''==============================================='']\<rparr>;
          st = st\<lparr>time := 0.0\<rparr>;
          st = st\<lparr>trace := trace st @ [Print ''Applying the initial condition'']\<rparr>;
          st = st\<lparr>solution_owned := interpolate lib FunctionU0_value\<rparr>;
          st = st\<lparr>solution := solution_owned st\<rparr>
      in case write_output (st\<lparr>trace := trace st @ [Timer_enter ''Writing'']\<rparr>) 0 0.0 of
           Inl e \<Rightarrow> Some (Inl e)
         | Inr st \<Rightarrow>
             time_loop lib
               (st\<lparr>trace := trace st @ [Timer_leave ''Writing'',
                    Print ''-----------------------------------------------'']\<rparr>, 0, 1))"

subsection \<open>\<open>main\<close>\<close>

text \<open>The object \<open>problem\<close> that \<open>main\<close> constructs, sets up and solves.  Its arguments
  are the doubles of the literals \<open>15.0\<close>, which is 15, and \<open>0.1\<close>, which is not 1/10.\<close>

definition problem :: HeatNonLinear where
  "problem = construct 19 1 15.0 (double_round 0.1)"

definition main :: "deal_II \<Rightarrow> (exception + HeatNonLinear \<times> nat \<times> nat) option" where
  "main lib = solve lib (setup_problem lib problem)"

section \<open>A mesh of one element\<close>

text \<open>
  The smallest instance of the collaborators, used to run the member functions on
  concrete data: one locally owned cell with one degree of freedom and one quadrature
  node of weight 1, on which the only shape function has the value 1 and the gradient
  \<open>g\<close>.  The linear solver divides and reports one step.
\<close>

definition one_cell_mesh :: "tensor1 \<Rightarrow> cell" where
  "one_cell_mesh g =
     \<lparr> is_locally_owned = True, get_dof_indices = [0],
       shape_value = (\<lambda>i q. 1), shape_grad = (\<lambda>i q. g), JxW = (\<lambda>q. 1),
       quadrature_point = (\<lambda>q a. 0),
       get_function_values = (\<lambda>v q. v 0),
       get_function_gradients = (\<lambda>v q a. v 0 * g a) \<rparr>"

definition one_cell :: "tensor1 \<Rightarrow> deal_II" where
  "one_cell g =
     \<lparr> active_cells = [one_cell_mesh g], dofs_per_cell = 1, n_q = 1,
       compress_matrix = (\<lambda>A. A), compress_vector = (\<lambda>v. v),
       l2_norm = (\<lambda>v. Number \<bar>v 0\<bar>),
       interpolate = (\<lambda>f k. f (\<lambda>a. 0) 0),
       solver_solve = (\<lambda>m tol A x b. Inr (\<lambda>k. if k = 0 then b 0 / A (0, 0) else 0, 1)) \<rparr>"

text \<open>The same mesh with a solver that uses up its steps.\<close>

definition one_cell_stalled :: "tensor1 \<Rightarrow> deal_II" where
  "one_cell_stalled g =
     (one_cell g)\<lparr>solver_solve := (\<lambda>m tol A x b. Inl (NoConvergence m \<bar>b 0\<bar>))\<rparr>"

text \<open>
  The same mesh with the norm that the library returns for a residual with an entry that
  is not a number.  Such is the residual that the code assembles with \<open>deltat = 0\<close> from
  equal \<open>solution\<close> and \<open>solution_old\<close>: its term R.1 is \<open>0.0 / 0.0\<close>.
\<close>

definition one_cell_nan :: "tensor1 \<Rightarrow> deal_II" where
  "one_cell_nan g = (one_cell g)\<lparr>l2_norm := (\<lambda>v. NaN)\<rparr>"

text \<open>The object of a run with the time step 0.\<close>

definition zero_step_problem :: HeatNonLinear where
  "zero_step_problem = construct 19 1 15 0"

text \<open>An object whose time step, 1/8, is a double.\<close>

definition eighth_problem :: HeatNonLinear where
  "eighth_problem = construct 19 1 15 (1 / 8)"

text \<open>An object whose final time, 1/4, is half of its time step.\<close>

definition half_step_problem :: HeatNonLinear where
  "half_step_problem = construct 19 1 (1 / 4) (1 / 2)"

text \<open>An object with the time step of \<open>main\<close> and the final time 30000.\<close>

definition long_problem :: HeatNonLinear where
  "long_problem = construct 19 1 30000 (double_round 0.1)"

text \<open>An object with a negative time step.\<close>

definition backward_problem :: HeatNonLinear where
  "backward_problem = construct 19 1 15 (- 1)"

text \<open>An object with the time step 1.\<close>

definition unit_step_problem :: HeatNonLinear where
  "unit_step_problem = construct 19 1 15 1"

text \<open>A state of the object with the time step 1/8 in which the solution and the old
  solution are 1/2: the residual of its next Newton pass is 1/2.\<close>

definition half_state :: HeatNonLinear where
  "half_state =
     eighth_problem\<lparr>solution_owned := (\<lambda>_. 1 / 2), solution := (\<lambda>_. 1 / 2),
       solution_old := (\<lambda>_. 1 / 2)\<rparr>"

text \<open>A state of the object with the time step 1 in which the solution and the old
  solution are -1.  On the mesh of one element the equation of its next time step has no
  solution: every residual is at least 7/8 in absolute value.\<close>

definition diverging_state :: HeatNonLinear where
  "diverging_state =
     unit_step_problem\<lparr>solution_owned := (\<lambda>_. - 1), solution := (\<lambda>_. - 1),
       solution_old := (\<lambda>_. - 1)\<rparr>"

section \<open>Auxiliary functions for the proofs\<close>

text \<open>The loop of \<open>assemble_system\<close> over the cells, on the matrix and the vector alone.\<close>

definition scatter_cells ::
    "deal_II \<Rightarrow> HeatNonLinear \<Rightarrow> cell list \<Rightarrow> matrix \<times> vector \<Rightarrow> matrix \<times> vector" where
  "scatter_cells lib st cs =
     fold (\<lambda>c (A, v).
        if \<not> is_locally_owned c then (A, v)
        else (case assemble_cell lib st c of (cell_matrix, cell_residual) \<Rightarrow>
          (matrix_add (get_dof_indices c) cell_matrix A,
           vector_add (get_dof_indices c) cell_residual v))) cs"

text \<open>The snapshots among the events: file name and time of every \<open>output\<close>.\<close>

fun snapshots :: "event list \<Rightarrow> (string \<times> real) list" where
  "snapshots [] = []"
| "snapshots (Files_written name t u # es) = (name, t) # snapshots es"
| "snapshots (e # es) = snapshots es"

text \<open>The name \<open>output\<close> gives to the files of a frame index of at most four digits.\<close>

definition output_file_name :: "nat \<Rightarrow> string" where
  "output_file_name k =
     ''output-'' @ replicate (4 - length (to_string k)) (CHR ''0'') @ to_string k"

text \<open>The state in which \<open>solve\<close> enters its loop: the initial condition is applied and
  its snapshot written.\<close>

definition initial_state :: "deal_II \<Rightarrow> HeatNonLinear \<Rightarrow> HeatNonLinear" where
  "initial_state lib st =
     st\<lparr>time := 0, solution_owned := interpolate lib FunctionU0_value,
        solution := interpolate lib FunctionU0_value,
        trace := trace st @
          [Print ''==============================================='',
           Print ''Applying the initial condition'', Timer_enter ''Writing'',
           Files_written (output_file_name 0) 0 (interpolate lib FunctionU0_value),
           Timer_leave ''Writing'', Print ''-----------------------------------------------'']\<rparr>"

text \<open>The state with which a pass of the loop of \<open>solve\<close> calls \<open>solve_newton\<close>: the
  time advanced, the old solution stored and the line of the step printed.\<close>

definition step_start :: "HeatNonLinear \<Rightarrow> nat \<Rightarrow> HeatNonLinear" where
  "step_start st time_step =
     st\<lparr>time := fadd (time st) (deltat st), solution_old := solution st,
        trace := trace st @
          [Step_line ((time_step + 1) mod 2 ^ 32) (fadd (time st) (deltat st))]\<rparr>"

text \<open>The guard of the loop of \<open>solve\<close>.\<close>

definition time_remains :: "HeatNonLinear \<Rightarrow> bool" where
  "time_remains st \<longleftrightarrow> time st < fsub (T st) (fmul 0.5 (deltat st))"

text \<open>The time after \<open>k\<close> passes of that loop: \<open>k\<close> rounded additions of the time step.\<close>

fun time_after :: "real \<Rightarrow> nat \<Rightarrow> real" where
  "time_after dt 0 = 0"
| "time_after dt (Suc k) = fadd (time_after dt k) dt"

text \<open>The guard of the loop at the time after \<open>k\<close> passes.\<close>

definition guard_after :: "real \<Rightarrow> real \<Rightarrow> nat \<Rightarrow> bool" where
  "guard_after T' dt k \<longleftrightarrow> time_after dt k < fsub T' (fmul 0.5 dt)"

text \<open>
  What holds before every pass of that loop, as long as the frame index has at most four
  digits: \<open>time_step\<close> times has \<open>deltat\<close> been added to the time, the next
  frame index is \<open>tt\<close>, and the snapshots written are those of the steps 0, 30, 60, ...
\<close>

definition loop_invariant :: "HeatNonLinear \<times> nat \<times> nat \<Rightarrow> bool" where
  "loop_invariant s =
     (case s of (st, time_step, tt) \<Rightarrow>
        time st = time_after (deltat st) time_step \<and> tt = time_step div 30 + 1 \<and>
        snapshots (trace st) =
          map (\<lambda>k. (output_file_name k, time_after (deltat st) (30 * k)))
            [0..<time_step div 30 + 1])"

section \<open>Properties\<close>

subsection \<open>Rounding\<close>

lemma round_even_error: "\<bar>of_int (round_even x) - x\<bar> \<le> 1 / 2"
  by (auto simp: round_even_def)

lemma binade:
  assumes "x \<noteq> 0" and "2 powi k \<le> \<bar>x\<bar>" and "\<bar>x\<bar> < 2 powi (k + 1)"
  shows "\<lfloor>log 2 \<bar>x\<bar>\<rfloor> = k"
proof -
  from assms(1) have "0 < \<bar>x\<bar>" by simp
  moreover have "(2::real) powr (of_int k) = 2 powi k"
    by (simp add: powr_real_of_int')
  moreover have "(2::real) powr (of_int k + 1) = 2 powi (k + 1)"
    using powr_real_of_int' [of 2 "k + 1"] by simp
  ultimately show ?thesis
    using assms(2,3) by (simp add: floor_log_eq_powr_iff)
qed

text \<open>The rounding of a number whose binade is known.\<close>

lemma double_round_binade:
  assumes "x \<noteq> 0" and "2 powi k \<le> \<bar>x\<bar>" and "\<bar>x\<bar> < 2 powi (k + 1)"
  shows "double_round x = of_int (round_even (x / 2 powi (k - 52))) * 2 powi (k - 52)"
  using assms(1) by (simp add: double_round_def binade [OF assms])

lemma double_round_0: "double_round 0 = 0"
  by (simp add: double_round_def)

text \<open>The relative error of a rounding is at most \<open>2^-53\<close>.\<close>

lemma double_round_error: "\<bar>double_round x - x\<bar> \<le> \<bar>x\<bar> / 2 ^ 53"
proof (cases "x = 0")
  case True
  then show ?thesis by (simp add: double_round_def)
next
  case False
  define k where "k = \<lfloor>log 2 \<bar>x\<bar>\<rfloor>"
  define u :: real where "u = 2 powi (k - 52)"
  have u: "0 < u" by (simp add: u_def)
  from False have pos: "0 < \<bar>x\<bar>" by simp
  have "2 powr (of_int k) \<le> \<bar>x\<bar>"
    using floor_log_eq_powr_iff [of "\<bar>x\<bar>" 2 k] pos by (simp add: k_def)
  then have low: "2 powi k \<le> \<bar>x\<bar>"
    by (simp add: powr_real_of_int')
  have "2 powi k = u * 2 ^ 52"
    by (simp add: u_def power_int_diff)
  with low have ux: "u * 2 ^ 52 \<le> \<bar>x\<bar>" by simp
  have "double_round x = of_int (round_even (x / u)) * u"
    using False by (simp add: double_round_def k_def u_def)
  then have "double_round x - x = (of_int (round_even (x / u)) - x / u) * u"
    using u by (simp add: algebra_simps)
  then have "\<bar>double_round x - x\<bar> = \<bar>of_int (round_even (x / u)) - x / u\<bar> * u"
    using u by (simp add: abs_mult)
  also have "\<dots> \<le> 1 / 2 * u"
    using round_even_error [of "x / u"] u by (intro mult_right_mono) simp_all
  also have "\<dots> \<le> \<bar>x\<bar> / 2 ^ 53"
    using ux by simp
  finally show ?thesis .
qed

subsection \<open>The loops of \<open>set_up_diffusivity\<close>\<close>

lemma set_up_diffusivity_entry:
  "set_up_diffusivity dext daxn n i j =
     (if i < dim \<and> j < dim then diffusivity_entry dext daxn n i j else 0)"
  by (auto simp add: set_up_diffusivity_def dim_def upt_rec numeral_nat less_Suc_eq)


subsection \<open>The reaction rate\<close>

text \<open>
  C10: \<open>FunctionAlpha::value\<close> returns 2 at every point and for every component, and the
  assembly of a cell, which evaluates it at the quadrature nodes, does not depend on
  where these nodes are.
\<close>

lemma cell_matrix_update_quadrature_point:
  "cell_matrix_update st (c\<lparr>quadrature_point := qp\<rparr>) = cell_matrix_update st c"
  by (intro ext) (simp add: cell_matrix_update_def)

lemma cell_residual_update_quadrature_point:
  "cell_residual_update st (c\<lparr>quadrature_point := qp\<rparr>) = cell_residual_update st c"
  by (intro ext) (simp add: cell_residual_update_def)

theorem FunctionAlpha_constant:
  "FunctionAlpha_value p component = 2 \<and>
   assemble_cell lib st (c\<lparr>quadrature_point := qp\<rparr>) = assemble_cell lib st c"
  by (simp add: FunctionAlpha_value_def assemble_cell_def
      cell_matrix_update_quadrature_point cell_residual_update_quadrature_point)

subsection \<open>Assembly of one cell\<close>

lemma fold_prod:
  "fold (\<lambda>x (a, b). (f x a, g x b)) xs (a, b) = (fold f xs a, fold g xs b)"
  by (induction xs arbitrary: a b) simp_all

lemma fold_adds:
  fixes m :: "'k \<Rightarrow> real"
  assumes "\<And>x m. F x m y = m y + g x"
  shows "fold F xs m y = m y + (\<Sum>x\<leftarrow>xs. g x)"
  by (induction xs arbitrary: m) (simp_all add: assms algebra_simps)

lemma sum_list_pick:
  "(\<Sum>j\<leftarrow>[0..<n]. if b = j \<and> P then f j else (0::real)) = (if b < n \<and> P then f b else 0)"
  by (induction n) (auto simp: less_Suc_eq)

lemma cell_matrix_update_entry:
  "cell_matrix_update st c alpha_loc solution_loc q i j m (a, b) =
     m (a, b) + (if b = j \<and> a = i then
        (shape_value c i q * shape_value c j q / deltat st +
         scalar_product (contract (shape_grad c i q) (D st)) (shape_grad c j q) -
         shape_value c i q * alpha_loc * (1 - 2 * solution_loc q) * shape_value c j q) *
        JxW c q else 0)"
  by (simp add: cell_matrix_update_def algebra_simps add_divide_distrib)

lemma cell_residual_update_entry:
  "cell_residual_update st c alpha_loc solution_loc solution_gradient_loc solution_old_loc q i v a =
     v a + (if a = i \<and> True then
        (- shape_value c i q * (solution_loc q - solution_old_loc q) / deltat st -
         scalar_product (contract (shape_grad c i q) (D st)) (solution_gradient_loc q) +
         shape_value c i q * alpha_loc * solution_loc q * (1 - solution_loc q)) *
        JxW c q else 0)"
  by (simp add: cell_residual_update_def algebra_simps add_divide_distrib diff_divide_distrib)

lemma assemble_cell_split:
  "assemble_cell lib st c =
     (fold (\<lambda>q. fold (\<lambda>i. fold (cell_matrix_update st c (FunctionAlpha_value (quadrature_point c q) 0)
                 (get_function_values c (solution st)) q i) [0..<dofs_per_cell lib])
              [0..<dofs_per_cell lib])
         [0..<n_q lib] (\<lambda>_. 0),
      fold (\<lambda>q. fold (cell_residual_update st c (FunctionAlpha_value (quadrature_point c q) 0)
                 (get_function_values c (solution st)) (get_function_gradients c (solution st))
                 (get_function_values c (solution_old st)) q) [0..<dofs_per_cell lib])
         [0..<n_q lib] (\<lambda>_. 0))"
  by (simp add: assemble_cell_def Let_def fold_prod)

lemma cell_matrix_entry:
  assumes "i < dofs_per_cell lib" "j < dofs_per_cell lib"
  shows "fst (assemble_cell lib st c) (i, j) =
     (\<Sum>q\<leftarrow>[0..<n_q lib].
        (shape_value c i q * shape_value c j q / deltat st +
         scalar_product (contract (shape_grad c i q) (D st)) (shape_grad c j q) -
         shape_value c i q * FunctionAlpha_value (quadrature_point c q) 0 *
           (1 - 2 * get_function_values c (solution st) q) * shape_value c j q) *
        JxW c q)"
proof -
  let ?n = "dofs_per_cell lib"
  let ?t = "\<lambda>q i j. (shape_value c i q * shape_value c j q / deltat st +
         scalar_product (contract (shape_grad c i q) (D st)) (shape_grad c j q) -
         shape_value c i q * FunctionAlpha_value (quadrature_point c q) 0 *
           (1 - 2 * get_function_values c (solution st) q) * shape_value c j q) *
        JxW c q"
  let ?upd = "\<lambda>q. cell_matrix_update st c (FunctionAlpha_value (quadrature_point c q) 0)
                 (get_function_values c (solution st)) q"
  have row: "fold (?upd q i') [0..<?n] m (i, j) = m (i, j) + (if i = i' \<and> True then ?t q i' j else 0)"
    for q i' m
    using assms(2)
    by (subst fold_adds [where g = "\<lambda>j'. if j = j' \<and> i = i' then ?t q i' j' else 0"])
      (simp_all add: cell_matrix_update_entry sum_list_pick)
  have node: "fold (\<lambda>i'. fold (?upd q i') [0..<?n]) [0..<?n] m (i, j) = m (i, j) + ?t q i j"
    for q m
    using assms(1)
    by (subst fold_adds [where g = "\<lambda>i'. if i = i' \<and> True then ?t q i' j else 0"])
      (simp_all only: row sum_list_pick, simp_all)
  have "fold (\<lambda>q. fold (\<lambda>i'. fold (?upd q i') [0..<?n]) [0..<?n]) [0..<n_q lib] (\<lambda>_. 0) (i, j) =
      0 + (\<Sum>q\<leftarrow>[0..<n_q lib]. ?t q i j)"
    by (rule fold_adds) (rule node)
  then show ?thesis
    by (simp add: assemble_cell_split)
qed

lemma cell_residual_entry:
  assumes "i < dofs_per_cell lib"
  shows "snd (assemble_cell lib st c) i =
     (\<Sum>q\<leftarrow>[0..<n_q lib].
        (- shape_value c i q *
           (get_function_values c (solution st) q - get_function_values c (solution_old st) q) /
           deltat st -
         scalar_product (contract (shape_grad c i q) (D st)) (get_function_gradients c (solution st) q) +
         shape_value c i q * FunctionAlpha_value (quadrature_point c q) 0 *
           get_function_values c (solution st) q * (1 - get_function_values c (solution st) q)) *
        JxW c q)"
proof -
  let ?n = "dofs_per_cell lib"
  let ?t = "\<lambda>q i. (- shape_value c i q *
           (get_function_values c (solution st) q - get_function_values c (solution_old st) q) /
           deltat st -
         scalar_product (contract (shape_grad c i q) (D st)) (get_function_gradients c (solution st) q) +
         shape_value c i q * FunctionAlpha_value (quadrature_point c q) 0 *
           get_function_values c (solution st) q * (1 - get_function_values c (solution st) q)) *
        JxW c q"
  let ?upd = "\<lambda>q. cell_residual_update st c (FunctionAlpha_value (quadrature_point c q) 0)
                 (get_function_values c (solution st)) (get_function_gradients c (solution st))
                 (get_function_values c (solution_old st)) q"
  have node: "fold (?upd q) [0..<?n] v i = v i + ?t q i" for q v
    using assms
    by (subst fold_adds [where g = "\<lambda>i'. if i = i' \<and> True then ?t q i' else 0"])
      (simp_all only: cell_residual_update_entry sum_list_pick, simp_all)
  have "fold (\<lambda>q. fold (?upd q) [0..<?n]) [0..<n_q lib] (\<lambda>_. 0) i =
      0 + (\<Sum>q\<leftarrow>[0..<n_q lib]. ?t q i)"
    by (rule fold_adds) (rule node)
  then show ?thesis
    by (simp add: assemble_cell_split)
qed

subsection \<open>Assembly over the mesh\<close>

lemma cell_matrix_update_cong:
  "deltat st' = deltat st \<Longrightarrow> D st' = D st \<Longrightarrow> cell_matrix_update st' = cell_matrix_update st"
  by (intro ext) (simp add: cell_matrix_update_def)

lemma cell_residual_update_cong:
  "deltat st' = deltat st \<Longrightarrow> D st' = D st \<Longrightarrow> cell_residual_update st' = cell_residual_update st"
  by (intro ext) (simp add: cell_residual_update_def)

lemma assemble_cell_cong:
  assumes "deltat st' = deltat st" "D st' = D st" "solution st' = solution st"
    "solution_old st' = solution_old st"
  shows "assemble_cell lib st' = assemble_cell lib st"
proof
  fix c
  have m: "cell_matrix_update st' = cell_matrix_update st"
    using assms(1,2) by (rule cell_matrix_update_cong)
  have r: "cell_residual_update st' = cell_residual_update st"
    using assms(1,2) by (rule cell_residual_update_cong)
  show "assemble_cell lib st' c = assemble_cell lib st c"
    unfolding assemble_cell_def m r assms(3,4) ..
qed

lemma scatter_cells_cong:
  assumes "deltat st' = deltat st" "D st' = D st" "solution st' = solution st"
    "solution_old st' = solution_old st"
  shows "scatter_cells lib st' = scatter_cells lib st"
proof
  fix cs
  show "scatter_cells lib st' cs = scatter_cells lib st cs"
    unfolding scatter_cells_def assemble_cell_cong [OF assms] ..
qed

lemma assemble_fold:
  "fold (\<lambda>c st.
       if \<not> is_locally_owned c then st
       else (case assemble_cell lib st c of (cell_matrix, cell_residual) \<Rightarrow>
         st\<lparr>jacobian_matrix := matrix_add (get_dof_indices c) cell_matrix (jacobian_matrix st),
            residual_vector := vector_add (get_dof_indices c) cell_residual (residual_vector st)\<rparr>))
     cs st =
   st\<lparr>jacobian_matrix := fst (scatter_cells lib st cs (jacobian_matrix st, residual_vector st)),
      residual_vector := snd (scatter_cells lib st cs (jacobian_matrix st, residual_vector st))\<rparr>"
proof (induction cs arbitrary: st)
  case Nil
  show ?case by (simp add: scatter_cells_def)
next
  case (Cons c cs)
  show ?case
  proof (cases "is_locally_owned c")
    case False
    then show ?thesis
      using Cons.IH [of st] by (simp add: scatter_cells_def)
  next
    case True
    obtain cm cr where a: "assemble_cell lib st c = (cm, cr)"
      by (cases "assemble_cell lib st c")
    let ?st = "st\<lparr>jacobian_matrix := matrix_add (get_dof_indices c) cm (jacobian_matrix st),
            residual_vector := vector_add (get_dof_indices c) cr (residual_vector st)\<rparr>"
    have "scatter_cells lib ?st = scatter_cells lib st"
      by (rule scatter_cells_cong) simp_all
    then show ?thesis
      using True a Cons.IH [of ?st] by (simp add: scatter_cells_def)
  qed
qed

lemma assemble_system_unfold:
  "assemble_system lib st =
     st\<lparr>jacobian_matrix :=
          compress_matrix lib (fst (scatter_cells lib st (active_cells lib) (\<lambda>_. 0, \<lambda>_. 0))),
        residual_vector :=
          compress_vector lib (snd (scatter_cells lib st (active_cells lib) (\<lambda>_. 0, \<lambda>_. 0)))\<rparr>"
proof -
  let ?st = "st\<lparr>jacobian_matrix := (\<lambda>_. 0), residual_vector := (\<lambda>_. 0)\<rparr>"
  have "scatter_cells lib ?st = scatter_cells lib st"
    by (rule scatter_cells_cong) simp_all
  then show ?thesis
    by (simp add: assemble_system_def Let_def assemble_fold)
qed

lemma assemble_system_cong:
  assumes "deltat st' = deltat st" "D st' = D st" "solution st' = solution st"
    "solution_old st' = solution_old st"
  shows "jacobian_matrix (assemble_system lib st') = jacobian_matrix (assemble_system lib st)"
    and "residual_vector (assemble_system lib st') = residual_vector (assemble_system lib st)"
  using scatter_cells_cong [OF assms, of lib] by (simp_all add: assemble_system_unfold)


subsection \<open>One pass of the Newton loop\<close>

lemma assemble_system_trace:
  "assemble_system lib (st\<lparr>trace := t\<rparr>) = (assemble_system lib st)\<lparr>trace := t\<rparr>"
proof -
  have "scatter_cells lib (st\<lparr>trace := t\<rparr>) = scatter_cells lib st"
    by (rule scatter_cells_cong) simp_all
  then show ?thesis
    by (simp add: assemble_system_unfold)
qed

lemma assemble_system_fields:
  "T (assemble_system lib st) = T st"
  "deltat (assemble_system lib st) = deltat st"
  "time (assemble_system lib st) = time st"
  "D (assemble_system lib st) = D st"
  "delta_owned (assemble_system lib st) = delta_owned st"
  "solution_owned (assemble_system lib st) = solution_owned st"
  "solution (assemble_system lib st) = solution st"
  "solution_old (assemble_system lib st) = solution_old st"
  "trace (assemble_system lib st) = trace st"
  by (simp_all add: assemble_system_unfold)

lemma newton_body_small:
  assumes "\<not> exceeds (l2_norm lib (residual_vector (assemble_system lib st))) residual_tolerance"
  shows "newton_body lib st n_iter =
     Inr ((assemble_system lib st)\<lparr>trace := trace st @
            [Timer_enter ''Assemble system'', Timer_leave ''Assemble system'',
             Newton_line n_iter n_max_iters (l2_norm lib (residual_vector (assemble_system lib st))),
             Below_tolerance]\<rparr>,
          l2_norm lib (residual_vector (assemble_system lib st)))"
  using assms by (simp add: newton_body_def assemble_system_trace Let_def)

lemma newton_body_raise:
  assumes "exceeds (l2_norm lib (residual_vector (assemble_system lib st))) residual_tolerance"
    and "solver_solve lib 1000
           (scaled (1 / 10 ^ 6) (l2_norm lib (residual_vector (assemble_system lib st))))
           (jacobian_matrix (assemble_system lib st)) (delta_owned st)
           (residual_vector (assemble_system lib st)) = Inl e"
  shows "newton_body lib st n_iter = Inl e"
  using assms
  by (simp add: newton_body_def assemble_system_trace assemble_system_fields
      solve_linear_system_def Let_def)

lemma newton_body_large:
  assumes "exceeds (l2_norm lib (residual_vector (assemble_system lib st))) residual_tolerance"
    and "solver_solve lib 1000
           (scaled (1 / 10 ^ 6) (l2_norm lib (residual_vector (assemble_system lib st))))
           (jacobian_matrix (assemble_system lib st)) (delta_owned st)
           (residual_vector (assemble_system lib st)) = Inr (x, last_step)"
  shows "newton_body lib st n_iter =
     Inr ((assemble_system lib st)\<lparr>delta_owned := x,
            solution_owned := (\<lambda>k. solution_owned st k + x k),
            solution := (\<lambda>k. solution_owned st k + x k),
            trace := trace st @
              [Timer_enter ''Assemble system'', Timer_leave ''Assemble system'',
               Newton_line n_iter n_max_iters (l2_norm lib (residual_vector (assemble_system lib st))),
               Timer_enter ''Solve system'', CG_iterations last_step,
               Timer_leave ''Solve system'']\<rparr>,
          l2_norm lib (residual_vector (assemble_system lib st)))"
  using assms
  by (simp add: newton_body_def assemble_system_trace assemble_system_fields
      solve_linear_system_def Let_def)

subsection \<open>The Newton loop\<close>

declare newton_loop.simps [simp del]

lemma snapshots_append: "snapshots (es @ fs) = snapshots es @ snapshots fs"
  by (induction es rule: snapshots.induct) simp_all

lemma newton_body_frame:
  assumes "newton_body lib st n_iter = Inr (st', rn)"
  shows "T st' = T st \<and> deltat st' = deltat st \<and> time st' = time st \<and> D st' = D st \<and>
         solution_old st' = solution_old st \<and> snapshots (trace st') = snapshots (trace st) \<and>
         rn = l2_norm lib (residual_vector (assemble_system lib st))"
proof (cases "exceeds (l2_norm lib (residual_vector (assemble_system lib st))) residual_tolerance")
  case False
  from newton_body_small [OF False, of n_iter] assms show ?thesis
    by (auto simp: assemble_system_fields snapshots_append)
next
  case True
  show ?thesis
  proof (cases "solver_solve lib 1000
           (scaled (1 / 10 ^ 6) (l2_norm lib (residual_vector (assemble_system lib st))))
           (jacobian_matrix (assemble_system lib st)) (delta_owned st)
           (residual_vector (assemble_system lib st))")
    case (Inl e)
    from newton_body_raise [OF True Inl, of n_iter] assms show ?thesis by simp
  next
    case (Inr p)
    obtain x k where p: "p = (x, k)" by (cases p)
    from newton_body_large [OF True Inr [unfolded p], of n_iter] assms show ?thesis
      by (auto simp: assemble_system_fields snapshots_append)
  qed
qed


lemma newton_body_total:
  assumes "\<And>m tol A x b. \<exists>r. solver_solve lib m tol A x b = Inr r"
  shows "\<exists>r. newton_body lib st n_iter = Inr r"
proof (cases "exceeds (l2_norm lib (residual_vector (assemble_system lib st))) residual_tolerance")
  case False
  from newton_body_small [OF False, of n_iter] show ?thesis by simp
next
  case True
  obtain x k where "solver_solve lib 1000
           (scaled (1 / 10 ^ 6) (l2_norm lib (residual_vector (assemble_system lib st))))
           (jacobian_matrix (assemble_system lib st)) (delta_owned st)
           (residual_vector (assemble_system lib st)) = Inr (x, k)"
    using assms by (metis surj_pair)
  from newton_body_large [OF True this, of n_iter] show ?thesis by simp
qed

lemma newton_loop_frame:
  "newton_loop lib st n_iter rn = Inr (st', n', rn') \<Longrightarrow>
     T st' = T st \<and> deltat st' = deltat st \<and> time st' = time st \<and> D st' = D st \<and>
     solution_old st' = solution_old st \<and> snapshots (trace st') = snapshots (trace st)"
proof (induction lib st n_iter rn rule: newton_loop.induct)
  case (1 lib st n_iter rn)
  show ?case
  proof (cases "n_iter < n_max_iters \<and> exceeds rn residual_tolerance")
    case False
    with "1.prems" show ?thesis
      by (simp add: newton_loop.simps [of lib st n_iter rn])
  next
    case True
    with "1.prems" obtain st1 rn1 where b: "newton_body lib st n_iter = Inr (st1, rn1)"
      and l: "newton_loop lib st1 (n_iter + 1) rn1 = Inr (st', n', rn')"
      by (auto simp: newton_loop.simps [of lib st n_iter rn] split: sum.splits)
    from "1.IH" [OF True b refl l] newton_body_frame [OF b] show ?thesis
      by simp
  qed
qed

lemma newton_loop_exit:
  "newton_loop lib st n_iter rn = Inr (st', n', rn') \<Longrightarrow> n_iter \<le> n_max_iters \<Longrightarrow>
     n_iter \<le> n' \<and> n' \<le> n_max_iters \<and> (\<not> exceeds rn' residual_tolerance \<or> n' = n_max_iters) \<and>
     (n_iter < n_max_iters \<and> exceeds rn residual_tolerance \<longrightarrow> n_iter < n')"
proof (induction lib st n_iter rn rule: newton_loop.induct)
  case (1 lib st n_iter rn)
  show ?case
  proof (cases "n_iter < n_max_iters \<and> exceeds rn residual_tolerance")
    case False
    with "1.prems" show ?thesis
      by (auto simp: newton_loop.simps [of lib st n_iter rn])
  next
    case True
    with "1.prems" obtain st1 rn1 where b: "newton_body lib st n_iter = Inr (st1, rn1)"
      and l: "newton_loop lib st1 (n_iter + 1) rn1 = Inr (st', n', rn')"
      by (auto simp: newton_loop.simps [of lib st n_iter rn] split: sum.splits)
    from True have "n_iter + 1 \<le> n_max_iters" by simp
    from "1.IH" [OF True b refl l this] show ?thesis
      by simp
  qed
qed

lemma newton_loop_total:
  "\<forall>m tol A x b. \<exists>r. solver_solve lib m tol A x b = Inr r \<Longrightarrow>
     \<exists>r. newton_loop lib st n_iter rn = Inr r"
proof (induction lib st n_iter rn rule: newton_loop.induct)
  case (1 lib st n_iter rn)
  show ?case
  proof (cases "n_iter < n_max_iters \<and> exceeds rn residual_tolerance")
    case False
    then show ?thesis
      by (auto simp: newton_loop.simps [of lib st n_iter rn])
  next
    case True
    obtain st1 rn1 where b: "newton_body lib st n_iter = Inr (st1, rn1)"
      using newton_body_total [of lib st n_iter] "1.prems" by (metis surj_pair)
    from "1.IH" [OF True b refl "1.prems"] True b show ?thesis
      by (simp add: newton_loop.simps [of lib st n_iter rn])
  qed
qed

subsection \<open>Writing a snapshot, and the Newton sweep as a whole\<close>

declare to_string.simps [simp del]

lemma length_to_string_le: "0 < n \<Longrightarrow> k < 10 ^ n \<Longrightarrow> length (to_string k) \<le> n"
proof (induction n arbitrary: k)
  case 0
  then show ?case by simp
next
  case (Suc n)
  show ?case
  proof (cases "k < 10")
    case True
    then show ?thesis by (simp add: to_string.simps [of k])
  next
    case False
    with Suc.prems have "0 < n" by (cases n) auto
    moreover from Suc.prems have "k div 10 < 10 ^ n" by (simp add: less_mult_imp_div_less mult.commute)
    ultimately have "length (to_string (k div 10)) \<le> n" by (rule Suc.IH)
    with False show ?thesis by (simp add: to_string.simps [of k])
  qed
qed

lemma length_to_string_gt: "10 ^ n \<le> k \<Longrightarrow> n < length (to_string k)"
proof (induction n arbitrary: k)
  case 0
  then show ?case by (simp add: to_string.simps [of k])
next
  case (Suc n)
  have "(1::nat) \<le> 10 ^ n" by simp
  moreover from Suc.prems have "10 * 10 ^ n \<le> k" by simp
  ultimately have "\<not> k < 10" by linarith
  moreover from Suc.prems have d: "10 ^ n \<le> k div 10" by (simp add: less_eq_div_iff_mult_less_eq mult.commute)
  from d have "n < length (to_string (k div 10))" by (rule Suc.IH)
  ultimately show ?case by (simp add: to_string.simps [of k])
qed

lemma length_to_string_4: "length (to_string k) > 4 \<longleftrightarrow> 10000 \<le> k"
proof (cases "k < 10000")
  case True
  then have "length (to_string k) \<le> 4"
    using length_to_string_le [of 4 k] by simp
  with True show ?thesis by simp
next
  case False
  then have "4 < length (to_string k)"
    using length_to_string_gt [of 4 k] by simp
  with False show ?thesis by simp
qed

lemma write_output_small:
  "k < 10000 \<Longrightarrow> write_output st k t =
     Inr (st\<lparr>trace := trace st @ [Files_written (output_file_name k) t (solution st)]\<rparr>)"
  by (simp add: write_output_def output_file_name_def Let_def length_to_string_4)

lemma write_output_large: "10000 \<le> k \<Longrightarrow> write_output st k t = Inl Length_error"
  by (simp add: write_output_def Let_def length_to_string_4)

lemma solve_newton_frame:
  assumes "solve_newton lib st = Inr st'"
  shows "T st' = T st \<and> deltat st' = deltat st \<and> time st' = time st \<and> D st' = D st \<and>
     solution_old st' = solution_old st \<and> snapshots (trace st') = snapshots (trace st)"
proof -
  from assms obtain n' rn' where "newton_loop lib st 0 (Number (residual_tolerance + 1)) = Inr (st', n', rn')"
    by (auto simp: solve_newton_def split: sum.splits)
  then show ?thesis by (rule newton_loop_frame)
qed

lemma solve_newton_total:
  assumes "\<forall>m tol A x b. \<exists>r. solver_solve lib m tol A x b = Inr r"
  shows "\<exists>st'. solve_newton lib st = Inr st'"
  using newton_loop_total [OF assms, of st 0 "Number (residual_tolerance + 1)"]
  by (auto simp: solve_newton_def)


subsection \<open>One pass of the time loop\<close>

lemma step_multiple:
  assumes "Suc ts mod 30 = 0" and "tt = Suc (ts div 30)"
  shows "Suc ts div 30 = tt \<and> 30 * tt = Suc ts"
proof -
  from assms have d: "Suc ts div 30 = tt"
    by (simp add: div_Suc)
  have "30 * (Suc ts div 30) + Suc ts mod 30 = Suc ts"
    by (rule mult_div_mod_eq)
  with assms(1) d show ?thesis
    by simp
qed

lemma step_no_multiple: "Suc ts mod 30 \<noteq> 0 \<Longrightarrow> Suc ts div 30 = ts div 30"
  by (simp add: div_Suc)

lemma time_step_body_result:
  assumes total: "\<forall>m tol A x b. \<exists>r. solver_solve lib m tol A x b = Inr r"
    and inv: "loop_invariant (st, ts, tt)"
    and bound: "ts + 1 < 300000"
  shows "\<exists>st'. time_step_body lib (st, ts, tt) = Inr (st', ts + 1, (ts + 1) div 30 + 1) \<and>
     loop_invariant (st', ts + 1, (ts + 1) div 30 + 1) \<and>
     T st' = T st \<and> deltat st' = deltat st \<and> D st' = D st"
proof -
  let ?st1 = "st\<lparr>time := fadd (time st) (deltat st), solution_old := solution st,
    trace := trace st @ [Step_line (Suc ts) (fadd (time st) (deltat st))]\<rparr>"
  let ?F = "\<lambda>k. (output_file_name k, time_after (deltat st) (30 * k))"
  from inv have t: "time st = time_after (deltat st) ts" and tt: "tt = Suc (ts div 30)"
    and sn: "snapshots (trace st) = map ?F [0..<Suc (ts div 30)]"
    by (simp_all add: loop_invariant_def)
  from bound have wrap: "Suc ts mod 2 ^ 32 = Suc ts" by simp
  from solve_newton_total [OF total, of ?st1]
  obtain st2 where n: "solve_newton lib ?st1 = Inr st2" ..
  from solve_newton_frame [OF n]
  have f: "T st2 = T st" "deltat st2 = deltat st" "D st2 = D st"
    and f3: "time st2 = fadd (time st) (deltat st)"
    and f5: "snapshots (trace st2) = snapshots (trace st)"
    by (simp_all add: snapshots_append)
  have t2: "time st2 = time_after (deltat st) (Suc ts)"
    using f3 t by simp
  show ?thesis
  proof (cases "Suc ts mod 30 = 0")
    case False
    note d = step_no_multiple [OF False]
    let ?st' = "st2\<lparr>trace := trace st2 @ [Print []]\<rparr>"
    have "time_step_body lib (st, ts, tt) = Inr (?st', Suc ts, tt)"
      using False n wrap by (simp add: time_step_body_def Let_def)
    moreover have "tt = Suc (Suc ts div 30)"
      using tt d by simp
    moreover have "loop_invariant (?st', Suc ts, Suc (Suc ts div 30))"
      using f(2) t2 sn f5 by (simp add: loop_invariant_def snapshots_append d)
    ultimately show ?thesis using f by simp
  next
    case True
    note m = step_multiple [OF True tt]
    from m have d: "Suc ts div 30 = tt" ..
    from m have e: "30 * tt = Suc ts" ..
    from bound e have small: "tt < 10000" by linarith
    let ?st' = "st2\<lparr>trace := trace st2 @ [Timer_enter ''Writing'',
      Files_written (output_file_name tt) (time st2) (solution st2),
      Timer_leave ''Writing'', Print []]\<rparr>"
    from small have wrap': "Suc tt mod 2 ^ 32 = Suc tt" by simp
    have "time_step_body lib (st, ts, tt) = Inr (?st', Suc ts, Suc tt)"
      using True n wrap wrap' by (simp add: time_step_body_def Let_def write_output_small [OF small])
    moreover have "loop_invariant (?st', Suc ts, Suc tt)"
    proof -
      have "time st2 = time_after (deltat st) (30 * tt)"
        unfolding t2 e ..
      moreover have "snapshots (trace st) = map ?F [0..<tt]"
        using sn tt by simp
      ultimately have "snapshots (trace ?st') = map ?F [0..<Suc tt]"
        using f5 by (simp add: snapshots_append)
      then show ?thesis
        using f(2) t2 d by (simp add: loop_invariant_def)
    qed
    ultimately show ?thesis using f d by simp
  qed
qed

subsection \<open>The time loop\<close>

lemma time_loop_stop:
  "\<not> time_remains st \<Longrightarrow> time_loop lib (st, ts, tt) = Some (Inr (st, ts, tt))"
  by (subst time_loop.simps) (simp add: time_remains_def)

lemma time_loop_step:
  "time_remains st \<Longrightarrow>
     time_loop lib (st, ts, tt) =
       (case time_step_body lib (st, ts, tt) of Inl e \<Rightarrow> Some (Inl e) | Inr s' \<Rightarrow> time_loop lib s')"
  by (subst time_loop.simps) (simp add: time_remains_def)

lemma time_loop_steps:
  assumes total: "\<forall>m tol A x b. \<exists>r. solver_solve lib m tol A x b = Inr r"
  shows "loop_invariant (st, ts, tt) \<Longrightarrow> ts + n < 300000 \<Longrightarrow>
     \<forall>j<n. guard_after (T st) (deltat st) (ts + j) \<Longrightarrow>
     \<exists>st'. time_loop lib (st, ts, tt) = time_loop lib (st', ts + n, (ts + n) div 30 + 1) \<and>
       loop_invariant (st', ts + n, (ts + n) div 30 + 1) \<and>
       T st' = T st \<and> deltat st' = deltat st \<and> D st' = D st"
proof (induction n arbitrary: st ts tt)
  case 0
  then have "tt = ts div 30 + 1"
    by (simp add: loop_invariant_def)
  with 0 show ?case by auto
next
  case (Suc n)
  from Suc.prems(2) have b: "ts + 1 < 300000" by simp
  from time_step_body_result [OF total Suc.prems(1) b]
  obtain st1 where body: "time_step_body lib (st, ts, tt) = Inr (st1, ts + 1, (ts + 1) div 30 + 1)"
    and inv1: "loop_invariant (st1, ts + 1, (ts + 1) div 30 + 1)"
    and f1: "T st1 = T st" "deltat st1 = deltat st" "D st1 = D st"
    by blast
  from Suc.prems(1) have "time st = time_after (deltat st) ts"
    by (simp add: loop_invariant_def)
  moreover from Suc.prems(3) have "guard_after (T st) (deltat st) (ts + 0)"
    by blast
  ultimately have "time_remains st"
    by (simp add: guard_after_def time_remains_def)
  then have step: "time_loop lib (st, ts, tt) = time_loop lib (st1, ts + 1, (ts + 1) div 30 + 1)"
    by (simp add: time_loop_step body)
  have b1: "(ts + 1) + n < 300000"
    using Suc.prems(2) by simp
  have c1: "\<forall>j<n. guard_after (T st1) (deltat st1) ((ts + 1) + j)"
  proof (intro allI impI)
    fix j assume "j < n"
    then have "Suc j < Suc n" by simp
    with Suc.prems(3) have "guard_after (T st) (deltat st) (ts + Suc j)"
      by blast
    then show "guard_after (T st1) (deltat st1) ((ts + 1) + j)"
      by (simp add: f1)
  qed
  from Suc.IH [OF inv1 b1 c1]
  obtain st' where "time_loop lib (st1, ts + 1, (ts + 1) div 30 + 1) =
        time_loop lib (st', ts + 1 + n, (ts + 1 + n) div 30 + 1)"
    and "loop_invariant (st', ts + 1 + n, (ts + 1 + n) div 30 + 1)"
    and "T st' = T st1" "deltat st' = deltat st1" "D st' = D st1"
    by blast
  with step f1 show ?case
    by (auto simp: add.commute add.left_commute)
qed

subsection \<open>The whole of solve\<close>

lemma solve_start:
  assumes "snapshots (trace st) = []"
  shows "\<exists>st0. solve lib st = time_loop lib (st0, 0, 1) \<and> loop_invariant (st0, 0, 1) \<and>
     T st0 = T st \<and> deltat st0 = deltat st \<and> D st0 = D st \<and>
     solution st0 = interpolate lib FunctionU0_value \<and>
     (\<exists>es. trace st0 = trace st @ es)"
proof -
  let ?st0 = "st\<lparr>time := 0, solution_owned := interpolate lib FunctionU0_value,
    solution := interpolate lib FunctionU0_value,
    trace := trace st @
      [Print ''==============================================='',
       Print ''Applying the initial condition'', Timer_enter ''Writing'',
       Files_written (output_file_name 0) 0 (interpolate lib FunctionU0_value),
       Timer_leave ''Writing'', Print ''-----------------------------------------------'']\<rparr>"
  have z: "(0::nat) < 10000" by simp
  have "solve lib st = time_loop lib (?st0, 0, 1)"
    by (simp add: solve_def Let_def write_output_small [OF z])
  moreover have "loop_invariant (?st0, 0, 1)"
    using assms by (simp add: loop_invariant_def snapshots_append)
  ultimately show ?thesis
    by (intro exI [of _ ?st0]) simp
qed

lemma solve_steps:
  assumes total: "\<forall>m tol A x b. \<exists>r. solver_solve lib m tol A x b = Inr r"
    and fresh: "snapshots (trace st) = []"
    and bound: "n < 300000"
    and before: "\<forall>j<n. guard_after (T st) (deltat st) j"
    and last: "\<not> guard_after (T st) (deltat st) n"
  shows "\<exists>st'. solve lib st = Some (Inr (st', n, n div 30 + 1)) \<and>
     loop_invariant (st', n, n div 30 + 1) \<and>
     T st' = T st \<and> deltat st' = deltat st \<and> D st' = D st"
proof -
  from solve_start [OF fresh, of lib]
  obtain st0 where s: "solve lib st = time_loop lib (st0, 0, 1)"
    and inv0: "loop_invariant (st0, 0, 1)"
    and f0: "T st0 = T st" "deltat st0 = deltat st" "D st0 = D st"
    by blast
  from bound have b: "0 + n < 300000" by simp
  from before have c: "\<forall>j<n. guard_after (T st0) (deltat st0) (0 + j)"
    by (simp add: f0)
  from time_loop_steps [OF total inv0 b c]
  obtain st' where l: "time_loop lib (st0, 0, 1) = time_loop lib (st', n, n div 30 + 1)"
    and inv: "loop_invariant (st', n, n div 30 + 1)"
    and f: "T st' = T st0" "deltat st' = deltat st0" "D st' = D st0"
    by auto
  from inv have "time st' = time_after (deltat st') n"
    by (simp add: loop_invariant_def)
  with last have "\<not> time_remains st'"
    by (simp add: f f0 guard_after_def time_remains_def)
  then have "time_loop lib (st', n, n div 30 + 1) = Some (Inr (st', n, n div 30 + 1))"
    by (rule time_loop_stop)
  with s l inv f f0 show ?thesis
    by auto
qed

lemma solve_frame_overflow:
  assumes total: "\<forall>m tol A x b. \<exists>r. solver_solve lib m tol A x b = Inr r"
    and fresh: "snapshots (trace st) = []"
    and before: "\<forall>j<300000. guard_after (T st) (deltat st) j"
  shows "solve lib st = Some (Inl Length_error)"
proof -
  from solve_start [OF fresh, of lib]
  obtain st0 where s: "solve lib st = time_loop lib (st0, 0, 1)"
    and inv0: "loop_invariant (st0, 0, 1)"
    and f0: "T st0 = T st" "deltat st0 = deltat st" "D st0 = D st"
    by blast
  have b: "0 + 299999 < (300000::nat)" by simp
  from before have c: "\<forall>j<299999. guard_after (T st0) (deltat st0) (0 + j)"
    by (simp add: f0)
  from time_loop_steps [OF total inv0 b c]
  obtain st' where l: "time_loop lib (st0, 0, 1) = time_loop lib (st', 299999, 10000)"
    and inv: "loop_invariant (st', 299999, 10000)"
    and f: "T st' = T st0" "deltat st' = deltat st0" "D st' = D st0"
    by auto
  let ?st1 = "st'\<lparr>time := fadd (time st') (deltat st'), solution_old := solution st',
    trace := trace st' @ [Step_line 300000 (fadd (time st') (deltat st'))]\<rparr>"
  from solve_newton_total [OF total, of ?st1]
  obtain st2 where n: "solve_newton lib ?st1 = Inr st2" ..
  have big: "(10000::nat) \<le> 10000" by simp
  have body: "time_step_body lib (st', 299999, 10000) = Inl Length_error"
    using n by (simp add: time_step_body_def Let_def write_output_large [OF big])
  from inv have "time st' = time_after (deltat st') 299999"
    by (simp add: loop_invariant_def)
  moreover have "guard_after (T st) (deltat st) 299999"
    using before [rule_format, of 299999] by simp
  ultimately have "time_remains st'"
    by (simp add: f f0 guard_after_def time_remains_def)
  then have "time_loop lib (st', 299999, 10000) = Some (Inl Length_error)"
    by (simp add: time_loop_step body)
  with s l show ?thesis by simp
qed


subsection \<open>The mesh of one element\<close>

lemma one_cell_total: "\<forall>m tol A x b. \<exists>r. solver_solve (one_cell g) m tol A x b = Inr r"
  by (simp add: one_cell_def)

lemma one_cell_scatter:
  "scatter_cells (one_cell g) st (active_cells (one_cell g)) (\<lambda>_. 0, \<lambda>_. 0) =
     ((\<lambda>_. 0)((0, 0) := fst (assemble_cell (one_cell g) st (one_cell_mesh g)) (0, 0)),
      (\<lambda>_. 0)(0 := snd (assemble_cell (one_cell g) st (one_cell_mesh g)) 0))"
  by (simp add: scatter_cells_def one_cell_def one_cell_mesh_def matrix_add_def vector_add_def
      split: prod.splits)

lemma one_cell_residual:
  "residual_vector (assemble_system (one_cell (\<lambda>a. 0)) st) =
     (\<lambda>_. 0)(0 := - (solution st 0 - solution_old st 0) / deltat st +
                   2 * solution st 0 * (1 - solution st 0))"
proof -
  have "0 < dofs_per_cell (one_cell (\<lambda>a. 0))"
    by (simp add: one_cell_def)
  from cell_residual_entry [OF this, of st "one_cell_mesh (\<lambda>a. 0)"]
  have "snd (assemble_cell (one_cell (\<lambda>a. 0)) st (one_cell_mesh (\<lambda>a. 0))) 0 =
      - (solution st 0 - solution_old st 0) / deltat st + 2 * solution st 0 * (1 - solution st 0)"
    by (simp add: one_cell_def one_cell_mesh_def scalar_product_def contract_def
        FunctionAlpha_value_def)
  then show ?thesis
    by (simp add: assemble_system_unfold one_cell_scatter) (simp add: one_cell_def)
qed

lemma one_cell_jacobian:
  "jacobian_matrix (assemble_system (one_cell (\<lambda>a. 0)) st) =
     (\<lambda>_. 0)((0, 0) := 1 / deltat st - 2 * (1 - 2 * solution st 0))"
proof -
  have "0 < dofs_per_cell (one_cell (\<lambda>a. 0))"
    by (simp add: one_cell_def)
  from cell_matrix_entry [OF this this, of st "one_cell_mesh (\<lambda>a. 0)"]
  have "fst (assemble_cell (one_cell (\<lambda>a. 0)) st (one_cell_mesh (\<lambda>a. 0))) (0, 0) =
      1 / deltat st - 2 * (1 - 2 * solution st 0)"
    by (simp add: one_cell_def one_cell_mesh_def scalar_product_def contract_def
        FunctionAlpha_value_def)
  then show ?thesis
    by (simp add: assemble_system_unfold one_cell_scatter) (simp add: one_cell_def)
qed

lemma one_cell_norm: "l2_norm (one_cell g) v = Number \<bar>v 0\<bar>"
  by (simp add: one_cell_def)

lemma one_cell_solver:
  "solver_solve (one_cell g) m tol A x b = Inr (\<lambda>k. if k = 0 then b 0 / A (0, 0) else 0, 1)"
  by (simp add: one_cell_def)

lemma double_round_5: "double_round 5 = 5"
  by (subst double_round_binade [of _ 2]) (simp_all add: round_even_def)

lemma double_round_tenth: "double_round (1 / 10) = 3602879701896397 / 36028797018963968"
  by (subst double_round_binade [of _ "- 4"]) (simp_all add: round_even_def)

lemma D_construct:
  "D (construct n k t dt) i j = (if i < 3 \<and> j < 3 \<and> i = j then 5 else 0)"
  by (simp add: construct_def set_up_diffusivity_entry diffusivity_entry_def dim_def
      fmul_def fadd_def double_round_0 double_round_5)

lemma construct_fields:
  "T (construct n k t dt) = t"
  "deltat (construct n k t dt) = dt"
  "trace (construct n k t dt) = []"
  "solution (construct n k t dt) = (\<lambda>_. 0)"
  "solution_old (construct n k t dt) = (\<lambda>_. 0)"
  "solution_owned (construct n k t dt) = (\<lambda>_. 0)"
  "delta_owned (construct n k t dt) = (\<lambda>_. 0)"
  by (simp_all add: construct_def)

subsection \<open>What no member function changes\<close>

lemma write_output_frame:
  "write_output st k t = Inr st' \<Longrightarrow>
     T st' = T st \<and> deltat st' = deltat st \<and> D st' = D st \<and> time st' = time st"
  by (auto simp: write_output_def Let_def split: if_splits)

lemma time_step_body_frame:
  assumes "time_step_body lib (st, ts, tt) = Inr (st', ts', tt')"
  shows "T st' = T st \<and> deltat st' = deltat st \<and> D st' = D st \<and>
     time st' = fadd (time st) (deltat st) \<and> ts' = (ts + 1) mod 2 ^ 32"
proof -
  let ?st1 = "st\<lparr>time := fadd (time st) (deltat st), solution_old := solution st,
    trace := trace st @ [Step_line ((ts + 1) mod 2 ^ 32) (fadd (time st) (deltat st))]\<rparr>"
  from assms obtain st2 where n: "solve_newton lib ?st1 = Inr st2"
    by (cases "solve_newton lib ?st1") (simp_all add: time_step_body_def Let_def)
  note f = solve_newton_frame [OF n]
  show ?thesis
  proof (cases "(ts + 1) mod 2 ^ 32 mod 30 = 0")
    case False
    with assms n have "st' = st2\<lparr>trace := trace st2 @ [Print []]\<rparr>" and "ts' = (ts + 1) mod 2 ^ 32"
      by (simp_all add: time_step_body_def Let_def)
    with f show ?thesis by simp
  next
    case True
    with assms n obtain st3
      where w: "write_output (st2\<lparr>trace := trace st2 @ [Timer_enter ''Writing'']\<rparr>) tt (time st2) = Inr st3"
        and "st' = st3\<lparr>trace := trace st3 @ [Timer_leave ''Writing'', Print []]\<rparr>"
        and "ts' = (ts + 1) mod 2 ^ 32"
      by (cases "write_output (st2\<lparr>trace := trace st2 @ [Timer_enter ''Writing'']\<rparr>) tt (time st2)")
        (simp_all add: time_step_body_def Let_def)
    with f write_output_frame [OF w] show ?thesis by simp
  qed
qed

lemma time_loop_frame_sum:
  assumes "time_loop lib s = Some y"
  shows "case y of Inl e \<Rightarrow> True
      | Inr s' \<Rightarrow> T (fst s') = T (fst s) \<and> deltat (fst s') = deltat (fst s) \<and>
          D (fst s') = D (fst s)"
  using assms
proof (rule time_loop.raw_induct [rotated, where P = "\<lambda>lib s y. case y of Inl e \<Rightarrow> True
      | Inr s' \<Rightarrow> T (fst s') = T (fst s) \<and> deltat (fst s') = deltat (fst s) \<and>
          D (fst s') = D (fst s)"])
  fix loop lib s y
  assume IH: "\<And>lib s y. loop lib s = Some y \<Longrightarrow> (case y of Inl e \<Rightarrow> True
      | Inr s' \<Rightarrow> T (fst s') = T (fst s) \<and> deltat (fst s') = deltat (fst s) \<and>
          D (fst s') = D (fst s))"
    and eq: "(if time (fst s) < fsub (T (fst s)) (fmul 0.5 (deltat (fst s)))
      then case time_step_body lib s of Inl e \<Rightarrow> Some (Inl e) | Inr s' \<Rightarrow> loop lib s'
      else Some (Inr s)) = Some y"
  show "case y of Inl e \<Rightarrow> True
      | Inr s' \<Rightarrow> T (fst s') = T (fst s) \<and> deltat (fst s') = deltat (fst s) \<and>
          D (fst s') = D (fst s)"
  proof (cases "time (fst s) < fsub (T (fst s)) (fmul 0.5 (deltat (fst s)))")
    case False
    with eq have "y = Inr s" by simp
    then show ?thesis by simp
  next
    case True
    show ?thesis
    proof (cases "time_step_body lib s")
      case (Inl e)
      with True eq have "y = Inl e" by simp
      then show ?thesis by simp
    next
      case (Inr s1)
      with True eq have l: "loop lib s1 = Some y" by simp
      obtain st ts tt where s: "s = (st, ts, tt)" by (cases s)
      obtain st1 ts1 tt1 where s1: "s1 = (st1, ts1, tt1)" by (cases s1)
      from time_step_body_frame [OF Inr [unfolded s s1]]
      have "T (fst s1) = T (fst s) \<and> deltat (fst s1) = deltat (fst s) \<and> D (fst s1) = D (fst s)"
        by (simp add: s s1)
      with IH [OF l] show ?thesis
        by (cases y) simp_all
    qed
  qed
qed

lemma time_loop_frame:
  "time_loop lib s = Some (Inr s') \<Longrightarrow>
     T (fst s') = T (fst s) \<and> deltat (fst s') = deltat (fst s) \<and> D (fst s') = D (fst s)"
  using time_loop_frame_sum [of lib s "Inr s'"] by simp

lemma solve_unfold:
  "solve lib st = time_loop lib
     (st\<lparr>time := 0, solution_owned := interpolate lib FunctionU0_value,
         solution := interpolate lib FunctionU0_value,
         trace := trace st @
           [Print ''==============================================='',
            Print ''Applying the initial condition'', Timer_enter ''Writing'',
            Files_written (output_file_name 0) 0 (interpolate lib FunctionU0_value),
            Timer_leave ''Writing'', Print ''-----------------------------------------------'']\<rparr>,
      0, 1)"
proof -
  have z: "(0::nat) < 10000" by simp
  show ?thesis
    by (simp add: solve_def Let_def write_output_small [OF z])
qed

lemma solve_frame:
  assumes "solve lib st = Some (Inr (st', ts, tt))"
  shows "T st' = T st \<and> deltat st' = deltat st \<and> D st' = D st"
  using time_loop_frame [OF assms [unfolded solve_unfold]] by simp

lemma setup_problem_fields:
  "T (setup_problem lib st) = T st"
  "deltat (setup_problem lib st) = deltat st"
  "D (setup_problem lib st) = D st"
  "snapshots (trace (setup_problem lib st)) = snapshots (trace st)"
  by (simp_all add: setup_problem_def Let_def snapshots_append)

lemma problem_fields:
  "T problem = 15"
  "deltat problem = 3602879701896397 / 36028797018963968"
  "trace problem = []"
  "solution problem = (\<lambda>_. 0)"
  "solution_old problem = (\<lambda>_. 0)"
  "solution_owned problem = (\<lambda>_. 0)"
  "delta_owned problem = (\<lambda>_. 0)"
  "D problem i j = (if i < 3 \<and> j < 3 \<and> i = j then 5 else 0)"
  by (simp_all add: problem_def construct_fields D_construct double_round_tenth)

lemma eighth_problem_fields:
  "T eighth_problem = 15"
  "deltat eighth_problem = 1 / 8"
  "trace eighth_problem = []"
  "solution eighth_problem = (\<lambda>_. 0)"
  "solution_old eighth_problem = (\<lambda>_. 0)"
  "solution_owned eighth_problem = (\<lambda>_. 0)"
  "delta_owned eighth_problem = (\<lambda>_. 0)"
  "D eighth_problem i j = (if i < 3 \<and> j < 3 \<and> i = j then 5 else 0)"
  by (simp_all add: eighth_problem_def construct_fields D_construct)


subsection \<open>The accumulated time\<close>

lemma fadd_error: "\<bar>fadd a b - (a + b)\<bar> \<le> \<bar>a + b\<bar> / 2 ^ 53"
  unfolding fadd_def by (rule double_round_error)

lemma fsub_error: "\<bar>fsub a b - (a - b)\<bar> \<le> \<bar>a - b\<bar> / 2 ^ 53"
  unfolding fsub_def by (rule double_round_error)

lemma fmul_error: "\<bar>fmul a b - a * b\<bar> \<le> \<bar>a * b\<bar> / 2 ^ 53"
  unfolding fmul_def by (rule double_round_error)

text \<open>Up to a million steps of at most 1 each, the rounded additions stay close to the
  exact multiple of the time step.\<close>

lemma time_after_error:
  assumes "0 \<le> dt" and "dt \<le> 1"
  shows "k \<le> 1000000 \<Longrightarrow> \<bar>time_after dt k - real k * dt\<bar> \<le> real k / 2 ^ 32"
proof (induction k)
  case 0
  show ?case by simp
next
  case (Suc k)
  then have IH: "\<bar>time_after dt k - real k * dt\<bar> \<le> real k / 2 ^ 32" and k: "real k \<le> 1000000"
    by simp_all
  from k have small: "real k / 2 ^ 32 \<le> 1" by simp
  have "real k * dt \<le> real k * 1"
    using assms by (intro mult_left_mono) simp_all
  with k have kd: "real k * dt \<le> 1000000" by simp
  have kd0: "0 \<le> real k * dt" using assms by simp
  from IH small kd kd0 assms have s: "\<bar>time_after dt k + dt\<bar> \<le> 1000002"
    by linarith
  have "\<bar>fadd (time_after dt k) dt - (time_after dt k + dt)\<bar> \<le> \<bar>time_after dt k + dt\<bar> / 2 ^ 53"
    by (rule fadd_error)
  also have "\<dots> \<le> 1000002 / 2 ^ 53"
    using s by (intro divide_right_mono) simp_all
  also have "\<dots> \<le> 1 / 2 ^ 32" by simp
  finally have "\<bar>fadd (time_after dt k) dt - (time_after dt k + dt)\<bar> \<le> 1 / 2 ^ 32" .
  with IH have "\<bar>fadd (time_after dt k) dt - (real k * dt + dt)\<bar> \<le> real k / 2 ^ 32 + 1 / 2 ^ 32"
    by linarith
  then show ?case
    by (simp add: algebra_simps add_divide_distrib)
qed

text \<open>With a margin of 1/500 the guard of the time loop is decided by the exact times.\<close>

lemma guard_after_bounds:
  assumes "0 \<le> dt" and "dt \<le> 1" and "k \<le> 1000000" and "\<bar>T'\<bar> \<le> 1000000"
  shows "real k * dt + 1 / 500 < T' - dt / 2 \<Longrightarrow> guard_after T' dt k"
    and "T' - dt / 2 + 1 / 500 \<le> real k * dt \<Longrightarrow> \<not> guard_after T' dt k"
proof -
  have "\<bar>time_after dt k - real k * dt\<bar> \<le> real k / 2 ^ 32"
    using assms(1,2,3) by (rule time_after_error)
  moreover from assms(3) have "real k \<le> 1000000" by simp
  then have "real k / 2 ^ 32 \<le> 1 / 1000" by simp
  ultimately have t: "\<bar>time_after dt k - real k * dt\<bar> \<le> 1 / 1000"
    by linarith
  define h where "h = fmul 0.5 dt"
  have "\<bar>h - 0.5 * dt\<bar> \<le> \<bar>0.5 * dt\<bar> / 2 ^ 53"
    unfolding h_def by (rule fmul_error)
  also have "\<dots> \<le> 1 / 2 ^ 53"
    using assms(1,2) by (intro divide_right_mono) simp_all
  finally have h: "\<bar>h - dt / 2\<bar> \<le> 1 / 2 ^ 53" by simp
  have tiny: "(1::real) / 2 ^ 53 \<le> 1 / 2000" by simp
  from h tiny assms(1,2,4) have "\<bar>T' - h\<bar> \<le> 1000002" by linarith
  then have "\<bar>T' - h\<bar> / 2 ^ 53 \<le> 1000002 / 2 ^ 53"
    by (intro divide_right_mono) simp_all
  moreover have "\<bar>fsub T' h - (T' - h)\<bar> \<le> \<bar>T' - h\<bar> / 2 ^ 53"
    by (rule fsub_error)
  ultimately have "\<bar>fsub T' h - (T' - h)\<bar> \<le> 1000002 / 2 ^ 53"
    by linarith
  moreover have "(1000002::real) / 2 ^ 53 \<le> 1 / 2000" by simp
  ultimately have thr: "\<bar>fsub T' h - (T' - dt / 2)\<bar> \<le> 1 / 1000"
    using h tiny by linarith
  show "real k * dt + 1 / 500 < T' - dt / 2 \<Longrightarrow> guard_after T' dt k"
    unfolding guard_after_def h_def [symmetric] using t thr by linarith
  show "T' - dt / 2 + 1 / 500 \<le> real k * dt \<Longrightarrow> \<not> guard_after T' dt k"
    unfolding guard_after_def h_def [symmetric] using t thr by linarith
qed

section \<open>The claims\<close>

subsection \<open>Local Jacobian\<close>

text \<open>
  C1: for every cell (so for every locally owned one) and all local indices \<open>i\<close>, \<open>j\<close>
  below \<open>dofs_per_cell\<close>, the entry \<open>(i, j)\<close> of the local matrix that \<open>assemble_system\<close>
  computes is the sum over the quadrature nodes \<open>q\<close> of
  \<open>(\<phi>\<^sub>i \<phi>\<^sub>j / deltat + \<nabla>\<phi>\<^sub>i \<cdot> D \<cdot> \<nabla>\<phi>\<^sub>j - \<phi>\<^sub>i \<alpha> (1 - 2 u) \<phi>\<^sub>j) JxW\<close>, with \<open>u\<close> the value of \<open>solution\<close>
  at \<open>q\<close>.  The global matrix is accumulated from the zero matrix: what
  \<open>jacobian_matrix\<close> held before the call has no influence on the result.  The time step
  is taken non-zero, where the division of reals is the division of the code.
\<close>

theorem local_jacobian_entry:
  assumes "deltat st \<noteq> 0" and "i < dofs_per_cell lib" and "j < dofs_per_cell lib"
  shows "fst (assemble_cell lib st c) (i, j) =
       (\<Sum>q\<leftarrow>[0..<n_q lib].
          (shape_value c i q * shape_value c j q / deltat st +
           scalar_product (contract (shape_grad c i q) (D st)) (shape_grad c j q) -
           shape_value c i q * FunctionAlpha_value (quadrature_point c q) 0 *
             (1 - 2 * get_function_values c (solution st) q) * shape_value c j q) *
          JxW c q) \<and>
     jacobian_matrix (assemble_system lib (st\<lparr>jacobian_matrix := J0\<rparr>)) =
       jacobian_matrix (assemble_system lib st) \<and>
     jacobian_matrix (assemble_system lib st) =
       compress_matrix lib (fst (scatter_cells lib st (active_cells lib) (\<lambda>_. 0, \<lambda>_. 0)))"
proof (intro conjI)
  show "jacobian_matrix (assemble_system lib (st\<lparr>jacobian_matrix := J0\<rparr>)) =
       jacobian_matrix (assemble_system lib st)"
    by (rule assemble_system_cong) simp_all
qed (simp_all add: cell_matrix_entry [OF assms(2,3)] assemble_system_unfold)

theorem local_jacobian_entry_witness:
  "deltat eighth_problem \<noteq> 0 \<and> 0 < dofs_per_cell (one_cell (\<lambda>a. 1)) \<and>
   fst (assemble_cell (one_cell (\<lambda>a. 1)) eighth_problem (one_cell_mesh (\<lambda>a. 1)))
     (0, 0) = 21"
  using local_jacobian_entry [of "eighth_problem" 0 "one_cell (\<lambda>a. 1)" 0
      "one_cell_mesh (\<lambda>a. 1)" "\<lambda>_. 0"]
  by (simp add: one_cell_def one_cell_mesh_def eighth_problem_fields scalar_product_def contract_def
      dim_def FunctionAlpha_value_def upt_rec numeral_nat)

subsection \<open>Local residual and the sign of the increment\<close>

text \<open>
  C2: for every cell and every local index \<open>i\<close> below \<open>dofs_per_cell\<close>, the entry \<open>i\<close> of
  the local residual is the sum over the quadrature nodes of
  \<open>(- \<phi>\<^sub>i (u - u_old) / deltat - \<nabla>\<phi>\<^sub>i \<cdot> D \<cdot> \<nabla>u + \<phi>\<^sub>i \<alpha> u (1 - u)) JxW\<close>, and the global
  residual is accumulated from zero.  When its norm exceeds the tolerance and the solver
  returns \<open>x\<close> for the assembled matrix and residual, the pass of the Newton loop ends
  with \<open>solution_owned\<close> increased by \<open>x\<close>.
\<close>

theorem local_residual_entry:
  assumes "deltat st \<noteq> 0" and "i < dofs_per_cell lib"
    and "exceeds (l2_norm lib (residual_vector (assemble_system lib st))) residual_tolerance"
    and "solver_solve lib 1000
           (scaled (1 / 10 ^ 6) (l2_norm lib (residual_vector (assemble_system lib st))))
           (jacobian_matrix (assemble_system lib st)) (delta_owned st)
           (residual_vector (assemble_system lib st)) = Inr (x, last_step)"
  shows "snd (assemble_cell lib st c) i =
       (\<Sum>q\<leftarrow>[0..<n_q lib].
          (- shape_value c i q *
             (get_function_values c (solution st) q - get_function_values c (solution_old st) q) /
             deltat st -
           scalar_product (contract (shape_grad c i q) (D st))
             (get_function_gradients c (solution st) q) +
           shape_value c i q * FunctionAlpha_value (quadrature_point c q) 0 *
             get_function_values c (solution st) q *
             (1 - get_function_values c (solution st) q)) *
          JxW c q) \<and>
     residual_vector (assemble_system lib st) =
       compress_vector lib (snd (scatter_cells lib st (active_cells lib) (\<lambda>_. 0, \<lambda>_. 0))) \<and>
     (\<exists>st'. newton_body lib st n_iter =
          Inr (st', l2_norm lib (residual_vector (assemble_system lib st))) \<and>
        delta_owned st' = x \<and>
        solution_owned st' = (\<lambda>k. solution_owned st k + x k))"
  using newton_body_large [OF assms(3,4), of n_iter]
  by (simp add: cell_residual_entry [OF assms(2)] assemble_system_unfold)

theorem local_residual_entry_witness:
  "deltat eighth_problem \<noteq> 0 \<and> 0 < dofs_per_cell (one_cell (\<lambda>a. 0)) \<and>
   exceeds (l2_norm (one_cell (\<lambda>a. 0)) (residual_vector (assemble_system (one_cell (\<lambda>a. 0))
     (eighth_problem\<lparr>solution_owned := (\<lambda>_. 1 / 2), solution := (\<lambda>_. 1 / 2),
        solution_old := (\<lambda>_. 1 / 2)\<rparr>)))) residual_tolerance \<and>
   snd (assemble_cell (one_cell (\<lambda>a. 0))
     (eighth_problem\<lparr>solution_owned := (\<lambda>_. 1 / 2), solution := (\<lambda>_. 1 / 2),
        solution_old := (\<lambda>_. 1 / 2)\<rparr>) (one_cell_mesh (\<lambda>a. 0))) 0 = 1 / 2 \<and>
   (\<exists>st'. newton_body (one_cell (\<lambda>a. 0))
     (eighth_problem\<lparr>solution_owned := (\<lambda>_. 1 / 2), solution := (\<lambda>_. 1 / 2),
        solution_old := (\<lambda>_. 1 / 2)\<rparr>) 0 = Inr (st', Number (1 / 2)) \<and>
      solution_owned st' 0 = 9 / 16)"
proof -
  let ?lib = "one_cell (\<lambda>a. 0)"
  let ?st = "eighth_problem\<lparr>solution_owned := (\<lambda>_. 1 / 2), solution := (\<lambda>_. 1 / 2),
        solution_old := (\<lambda>_. 1 / 2)\<rparr>"
  have dt: "deltat ?st = 1 / 8" by (simp add: eighth_problem_fields)
  have r: "residual_vector (assemble_system ?lib ?st) = (\<lambda>_. 0)(0 := 1 / 2)"
    by (simp add: one_cell_residual eighth_problem_fields)
  have j: "jacobian_matrix (assemble_system ?lib ?st) = (\<lambda>_. 0)((0, 0) := 8)"
    by (simp add: one_cell_jacobian eighth_problem_fields)
  have h1: "deltat ?st \<noteq> 0" by (simp add: eighth_problem_fields)
  have h2: "0 < dofs_per_cell ?lib" by (simp add: one_cell_def)
  have h3: "exceeds (l2_norm ?lib (residual_vector (assemble_system ?lib ?st))) residual_tolerance"
    by (simp add: r one_cell_norm residual_tolerance_def exceeds_def)
  have h4: "solver_solve ?lib 1000
           (scaled (1 / 10 ^ 6) (l2_norm ?lib (residual_vector (assemble_system ?lib ?st))))
           (jacobian_matrix (assemble_system ?lib ?st)) (delta_owned ?st)
           (residual_vector (assemble_system ?lib ?st)) =
         Inr (\<lambda>k. if k = 0 then 1 / 16 else 0, 1)"
    by (simp add: one_cell_solver r j fun_eq_iff)
  note th = local_residual_entry [OF h1 h2 h3 h4, of "one_cell_mesh (\<lambda>a. 0)" 0]
  have e: "snd (assemble_cell ?lib ?st (one_cell_mesh (\<lambda>a. 0))) 0 = 1 / 2"
    unfolding th [THEN conjunct1]
    by (simp add: one_cell_def one_cell_mesh_def scalar_product_def contract_def
        FunctionAlpha_value_def eighth_problem_fields)
  from th [THEN conjunct2, THEN conjunct2]
  obtain st' where "newton_body ?lib ?st 0 =
        Inr (st', l2_norm ?lib (residual_vector (assemble_system ?lib ?st)))"
    and "solution_owned st' = (\<lambda>k. solution_owned ?st k + (if k = 0 then 1 / 16 else 0))"
    by blast
  then have "newton_body ?lib ?st 0 = Inr (st', Number (1 / 2)) \<and> solution_owned st' 0 = 9 / 16"
    by (simp add: r one_cell_norm)
  then have "\<exists>st'. newton_body ?lib ?st 0 = Inr (st', Number (1 / 2)) \<and>
      solution_owned st' 0 = 9 / 16" ..
  moreover have "deltat eighth_problem \<noteq> 0"
    by (simp add: eighth_problem_fields)
  ultimately show ?thesis
    using h2 h3 e by blast
qed


subsection \<open>The Newton sweep\<close>

lemma newton_loop_nan:
  assumes "l2_norm lib (residual_vector (assemble_system lib st)) = NaN"
  shows "newton_loop lib st 0 (Number (residual_tolerance + 1)) =
     Inr ((assemble_system lib st)\<lparr>trace := trace st @
            [Timer_enter ''Assemble system'', Timer_leave ''Assemble system'',
             Newton_line 0 1000 NaN, Below_tolerance]\<rparr>, 1, NaN)"
proof -
  from assms have small: "\<not> exceeds (l2_norm lib (residual_vector (assemble_system lib st)))
      residual_tolerance"
    by (simp add: exceeds_def)
  let ?st' = "(assemble_system lib st)\<lparr>trace := trace st @
            [Timer_enter ''Assemble system'', Timer_leave ''Assemble system'',
             Newton_line 0 n_max_iters (l2_norm lib (residual_vector (assemble_system lib st))),
             Below_tolerance]\<rparr>"
  show ?thesis
    by (simp add: newton_loop.simps [of lib st 0] newton_body_small [OF small] assms
        newton_loop.simps [of lib _ "Suc 0"] exceeds_def n_max_iters_def)
qed

text \<open>
  C3, as stated: a pass of the Newton loop whose residual norm is not at most the
  tolerance solves the linear system and adds the increment, and a sweep ends converged
  or, with the counter at 1000, diverged.  The norm of a residual with an entry that is
  not a number is NaN, as in the first pass of an object constructed with \<open>deltat = 0\<close>.
  It is not at most the tolerance, yet the comparison \<open>residual_norm > residual_tolerance\<close>
  is false: the pass prints \<open>< tolerance\<close>, the linear system is not solved, and the sweep
  ends after this one pass, with the counter at 1.
\<close>

theorem newton_sweep_nan_counterexample:
  "l2_norm (one_cell_nan (\<lambda>a. 0)) (residual_vector (assemble_system (one_cell_nan (\<lambda>a. 0))
       (setup_problem (one_cell_nan (\<lambda>a. 0)) zero_step_problem))) = NaN \<and>
   (\<exists>st'. newton_loop (one_cell_nan (\<lambda>a. 0))
        (setup_problem (one_cell_nan (\<lambda>a. 0)) zero_step_problem) 0
        (Number (residual_tolerance + 1)) = Inr (st', 1, NaN) \<and>
      trace st' = trace (setup_problem (one_cell_nan (\<lambda>a. 0)) zero_step_problem) @
        [Timer_enter ''Assemble system'', Timer_leave ''Assemble system'',
         Newton_line 0 1000 NaN, Below_tolerance] \<and>
      solution_owned st' = solution_owned (setup_problem (one_cell_nan (\<lambda>a. 0)) zero_step_problem))"
proof -
  let ?lib = "one_cell_nan (\<lambda>a. 0)"
  let ?st = "setup_problem ?lib zero_step_problem"
  have n: "l2_norm ?lib (residual_vector (assemble_system ?lib ?st)) = NaN"
    by (simp add: one_cell_nan_def)
  note l = newton_loop_nan [OF n]
  let ?st' = "(assemble_system ?lib ?st)\<lparr>trace := trace ?st @
            [Timer_enter ''Assemble system'', Timer_leave ''Assemble system'',
             Newton_line 0 1000 NaN, Below_tolerance]\<rparr>"
  have "trace ?st' = trace ?st @
        [Timer_enter ''Assemble system'', Timer_leave ''Assemble system'',
         Newton_line 0 1000 NaN, Below_tolerance]"
    by simp
  moreover have "solution_owned ?st' = solution_owned ?st"
    by (simp add: assemble_system_fields)
  ultimately show ?thesis
    using n l by blast
qed


text \<open>
  C3, amended: the claim holds for every pass with a time step other than 0 whose
  residual norm is a number, and for every sweep that ends with such a norm.  In a pass the residual is assembled from the
  current iterate alone (the previous matrix and residual have no influence) and its
  norm is taken.  If the norm is at most the tolerance \<open>1e-10\<close>, the pass leaves
  \<open>solution\<close>, \<open>solution_owned\<close> and \<open>delta_owned\<close> as they are and the loop stops after
  it.  If it is larger and the linear solver returns \<open>x\<close>, the pass ends with
  \<open>solution_owned\<close> increased by \<open>x\<close> and \<open>solution\<close> equal to it, and the loop goes on
  with the counter increased by one.  A sweep that returns with a number for the norm
  does so either with the norm within the tolerance (converged) or with the counter at
  1000 and the norm above the tolerance (diverged).
\<close>

theorem newton_sweep:
  assumes "deltat st \<noteq> 0"
    and "l2_norm lib (residual_vector (assemble_system lib st)) = Number rn"
  shows "residual_vector (assemble_system lib (st\<lparr>jacobian_matrix := J_old, residual_vector := R_old\<rparr>)) =
       residual_vector (assemble_system lib st) \<and>
     (rn \<le> residual_tolerance \<longrightarrow>
       (\<exists>st'. newton_body lib st n_iter = Inr (st', Number rn) \<and>
          solution st' = solution st \<and> solution_owned st' = solution_owned st \<and>
          delta_owned st' = delta_owned st \<and>
          (n_iter < n_max_iters \<and> exceeds r_prev residual_tolerance \<longrightarrow>
             newton_loop lib st n_iter r_prev = Inr (st', n_iter + 1, Number rn)))) \<and>
     (rn > residual_tolerance \<longrightarrow>
      solver_solve lib 1000 (Number (1 / 10 ^ 6 * rn)) (jacobian_matrix (assemble_system lib st))
        (delta_owned st) (residual_vector (assemble_system lib st)) = Inr (x, last_step) \<longrightarrow>
       (\<exists>st'. newton_body lib st n_iter = Inr (st', Number rn) \<and>
          delta_owned st' = x \<and>
          solution_owned st' = (\<lambda>k. solution_owned st k + x k) \<and>
          solution st' = solution_owned st' \<and>
          (n_iter < n_max_iters \<and> exceeds r_prev residual_tolerance \<longrightarrow>
             newton_loop lib st n_iter r_prev = newton_loop lib st' (n_iter + 1) (Number rn)))) \<and>
     (newton_loop lib st 0 (Number (residual_tolerance + 1)) = Inr (st_end, n, Number rn') \<longrightarrow>
        rn' \<le> residual_tolerance \<and> 1 \<le> n \<and> n \<le> n_max_iters \<or>
        rn' > residual_tolerance \<and> n = n_max_iters) \<and>
     n_max_iters = 1000 \<and> residual_tolerance = 1 / 10 ^ 10"
proof (intro conjI impI)
  show "residual_vector (assemble_system lib (st\<lparr>jacobian_matrix := J_old, residual_vector := R_old\<rparr>)) =
       residual_vector (assemble_system lib st)"
    by (rule assemble_system_cong) simp_all
next
  assume le: "rn \<le> residual_tolerance"
  then have small: "\<not> exceeds (l2_norm lib (residual_vector (assemble_system lib st))) residual_tolerance"
    by (simp add: assms(2) exceeds_def)
  note b = newton_body_small [OF small, of n_iter]
  let ?st' = "(assemble_system lib st)\<lparr>trace := trace st @
            [Timer_enter ''Assemble system'', Timer_leave ''Assemble system'',
             Newton_line n_iter n_max_iters (l2_norm lib (residual_vector (assemble_system lib st))),
             Below_tolerance]\<rparr>"
  have "n_iter < n_max_iters \<and> exceeds r_prev residual_tolerance \<longrightarrow>
      newton_loop lib st n_iter r_prev = Inr (?st', n_iter + 1, Number rn)"
    using le
    by (simp add: newton_loop.simps [of lib st n_iter r_prev] b assms(2) exceeds_def
        newton_loop.simps [of lib _ "Suc n_iter"])
  with b show "\<exists>st'. newton_body lib st n_iter = Inr (st', Number rn) \<and>
          solution st' = solution st \<and> solution_owned st' = solution_owned st \<and>
          delta_owned st' = delta_owned st \<and>
          (n_iter < n_max_iters \<and> exceeds r_prev residual_tolerance \<longrightarrow>
             newton_loop lib st n_iter r_prev = Inr (st', n_iter + 1, Number rn))"
    by (intro exI [of _ ?st']) (simp add: assms(2) assemble_system_fields)
next
  assume gt: "rn > residual_tolerance"
    and s: "solver_solve lib 1000 (Number (1 / 10 ^ 6 * rn)) (jacobian_matrix (assemble_system lib st))
        (delta_owned st) (residual_vector (assemble_system lib st)) = Inr (x, last_step)"
  from gt have large: "exceeds (l2_norm lib (residual_vector (assemble_system lib st))) residual_tolerance"
    by (simp add: assms(2) exceeds_def)
  from s have s': "solver_solve lib 1000
      (scaled (1 / 10 ^ 6) (l2_norm lib (residual_vector (assemble_system lib st))))
      (jacobian_matrix (assemble_system lib st)) (delta_owned st)
      (residual_vector (assemble_system lib st)) = Inr (x, last_step)"
    by (simp add: assms(2) scaled_def)
  note b = newton_body_large [OF large s', of n_iter]
  let ?st' = "(assemble_system lib st)\<lparr>delta_owned := x,
            solution_owned := (\<lambda>k. solution_owned st k + x k),
            solution := (\<lambda>k. solution_owned st k + x k),
            trace := trace st @
              [Timer_enter ''Assemble system'', Timer_leave ''Assemble system'',
               Newton_line n_iter n_max_iters (l2_norm lib (residual_vector (assemble_system lib st))),
               Timer_enter ''Solve system'', CG_iterations last_step,
               Timer_leave ''Solve system'']\<rparr>"
  have "n_iter < n_max_iters \<and> exceeds r_prev residual_tolerance \<longrightarrow>
      newton_loop lib st n_iter r_prev = newton_loop lib ?st' (n_iter + 1) (Number rn)"
    by (simp add: newton_loop.simps [of lib st n_iter r_prev] b assms(2))
  with b show "\<exists>st'. newton_body lib st n_iter = Inr (st', Number rn) \<and>
          delta_owned st' = x \<and>
          solution_owned st' = (\<lambda>k. solution_owned st k + x k) \<and>
          solution st' = solution_owned st' \<and>
          (n_iter < n_max_iters \<and> exceeds r_prev residual_tolerance \<longrightarrow>
             newton_loop lib st n_iter r_prev = newton_loop lib st' (n_iter + 1) (Number rn))"
    by (intro exI [of _ ?st']) (simp add: assms(2))
next
  assume l: "newton_loop lib st 0 (Number (residual_tolerance + 1)) = Inr (st_end, n, Number rn')"
  have "(0::nat) \<le> n_max_iters" by simp
  from newton_loop_exit [OF l this]
  show "rn' \<le> residual_tolerance \<and> 1 \<le> n \<and> n \<le> n_max_iters \<or>
        rn' > residual_tolerance \<and> n = n_max_iters"
    by (auto simp: n_max_iters_def exceeds_def)
qed (simp_all add: n_max_iters_def residual_tolerance_def)

theorem newton_sweep_witness:
  "deltat eighth_problem \<noteq> 0 \<and>
   l2_norm (one_cell (\<lambda>a. 0)) (residual_vector (assemble_system (one_cell (\<lambda>a. 0)) eighth_problem))
     = Number 0 \<and>
   (\<exists>st'. newton_loop (one_cell (\<lambda>a. 0)) eighth_problem 0 (Number (residual_tolerance + 1)) =
        Inr (st', 1, Number 0) \<and>
      solution st' = solution eighth_problem) \<and>
   l2_norm (one_cell (\<lambda>a. 0)) (residual_vector (assemble_system (one_cell (\<lambda>a. 0))
       (eighth_problem\<lparr>solution_owned := (\<lambda>_. 1 / 2), solution := (\<lambda>_. 1 / 2),
          solution_old := (\<lambda>_. 1 / 2)\<rparr>))) = Number (1 / 2) \<and>
   (\<exists>st'. newton_body (one_cell (\<lambda>a. 0))
       (eighth_problem\<lparr>solution_owned := (\<lambda>_. 1 / 2), solution := (\<lambda>_. 1 / 2),
          solution_old := (\<lambda>_. 1 / 2)\<rparr>) 0 = Inr (st', Number (1 / 2)) \<and>
      solution st' 0 = 9 / 16)"
proof -
  let ?lib = "one_cell (\<lambda>a. 0)"
  let ?st = "eighth_problem\<lparr>solution_owned := (\<lambda>_. 1 / 2), solution := (\<lambda>_. 1 / 2),
        solution_old := (\<lambda>_. 1 / 2)\<rparr>"
  have r1: "l2_norm ?lib (residual_vector (assemble_system ?lib eighth_problem)) = Number 0"
    by (simp add: one_cell_residual one_cell_norm eighth_problem_fields)
  have le: "(0::real) \<le> residual_tolerance"
    by (simp add: residual_tolerance_def)
  have dt1: "deltat eighth_problem \<noteq> 0"
    by (simp add: eighth_problem_fields)
  note th1 = newton_sweep [OF dt1 r1, where n_iter = 0 and r_prev = "Number (residual_tolerance + 1)"]
  from th1 [THEN conjunct2, THEN conjunct1, rule_format, OF le]
  have c: "\<exists>st'. newton_loop ?lib eighth_problem 0 (Number (residual_tolerance + 1)) =
        Inr (st', 1, Number 0) \<and> solution st' = solution eighth_problem"
    by (auto simp: n_max_iters_def exceeds_def)
  have r: "residual_vector (assemble_system ?lib ?st) = (\<lambda>_. 0)(0 := 1 / 2)"
    by (simp add: one_cell_residual eighth_problem_fields)
  have j: "jacobian_matrix (assemble_system ?lib ?st) = (\<lambda>_. 0)((0, 0) := 8)"
    by (simp add: one_cell_jacobian eighth_problem_fields)
  have r2: "l2_norm ?lib (residual_vector (assemble_system ?lib ?st)) = Number (1 / 2)"
    by (simp add: r one_cell_norm)
  have gt: "(1 / 2 :: real) > residual_tolerance"
    by (simp add: residual_tolerance_def)
  have s: "solver_solve ?lib 1000 (Number (1 / 10 ^ 6 * (1 / 2)))
           (jacobian_matrix (assemble_system ?lib ?st)) (delta_owned ?st)
           (residual_vector (assemble_system ?lib ?st)) =
         Inr (\<lambda>k. if k = 0 then 1 / 16 else 0, 1)"
    by (simp add: one_cell_solver r j fun_eq_iff)
  have dt2: "deltat ?st \<noteq> 0"
    by (simp add: eighth_problem_fields)
  note th2 = newton_sweep [OF dt2 r2, where n_iter = 0]
  from th2 [THEN conjunct2, THEN conjunct2, THEN conjunct1, rule_format, OF gt s]
  obtain st' where "newton_body ?lib ?st 0 = Inr (st', Number (1 / 2))"
    and "solution_owned st' = (\<lambda>k. solution_owned ?st k + (if k = 0 then 1 / 16 else 0))"
    and "solution st' = solution_owned st'"
    by blast
  then have "newton_body ?lib ?st 0 = Inr (st', Number (1 / 2)) \<and> solution st' 0 = 9 / 16"
    by simp
  then have "\<exists>st'. newton_body ?lib ?st 0 = Inr (st', Number (1 / 2)) \<and> solution st' 0 = 9 / 16" ..
  with dt1 r1 c r2 show ?thesis
    by blast
qed

subsection \<open>The diffusivity tensor\<close>


lemma double_round_seven_tenths: "double_round (7 / 10) = 3152519739159347 / 4503599627370496"
  by (subst double_round_binade [of _ "- 1"]) (simp_all add: round_even_def)







lemma main_run:
  assumes total: "\<forall>m tol A x b. \<exists>r. solver_solve lib m tol A x b = Inr r"
  shows "\<exists>st'. main lib = Some (Inr (st', 150, 6)) \<and> loop_invariant (st', 150, 6) \<and>
     T st' = 15 \<and> deltat st' = deltat problem \<and> D st' = D problem"
proof -
  let ?st = "setup_problem lib problem"
  let ?q = "3602879701896397 / 36028797018963968 :: real"
  have q: "0 \<le> ?q" "?q \<le> 1" by simp_all
  have T: "\<bar>15 :: real\<bar> \<le> 1000000" by simp
  have fresh: "snapshots (trace ?st) = []"
    by (simp add: setup_problem_fields problem_fields)
  have bound: "(150::nat) < 300000" by simp
  have before: "\<forall>j<150. guard_after (T ?st) (deltat ?st) j"
  proof (intro allI impI)
    fix j :: nat assume j: "j < 150"
    then have "real j \<le> 149" by simp
    then have "real j * ?q + 1 / 500 < 15 - ?q / 2" by simp
    moreover from j have "j \<le> 1000000" by simp
    ultimately have "guard_after 15 ?q j"
      using guard_after_bounds(1) [OF q _ T] by blast
    then show "guard_after (T ?st) (deltat ?st) j"
      by (simp add: setup_problem_fields problem_fields)
  qed
  have "15 - ?q / 2 + 1 / 500 \<le> real 150 * ?q" by simp
  moreover have "(150::nat) \<le> 1000000" by simp
  ultimately have "\<not> guard_after 15 ?q 150"
    using guard_after_bounds(2) [OF q _ T] by blast
  then have last: "\<not> guard_after (T ?st) (deltat ?st) 150"
    by (simp add: setup_problem_fields problem_fields)
  from solve_steps [OF total fresh bound before last] show ?thesis
    by (simp add: main_def setup_problem_fields problem_fields)
qed


subsection \<open>The number of time steps\<close>

lemma half_step_guard: "\<not> guard_after (1 / 4) (1 / 2) 0"
proof -
  have h: "fmul (1 / 2) (1 / 2) = 1 / 4"
    unfolding fmul_def by (subst double_round_binade [of _ "- 2"]) (simp_all add: round_even_def)
  show ?thesis
    by (simp add: guard_after_def fsub_def double_round_0 h)
qed

lemma ten_steps:
  "\<forall>j<10. guard_after 1 (double_round (1 / 10)) j"
  "\<not> guard_after 1 (double_round (1 / 10)) 10"
proof -
  let ?q = "3602879701896397 / 36028797018963968 :: real"
  have q: "0 \<le> ?q" "?q \<le> 1" by simp_all
  have T: "\<bar>1 :: real\<bar> \<le> 1000000" by simp
  show "\<forall>j<10. guard_after 1 (double_round (1 / 10)) j"
  proof (intro allI impI)
    fix j :: nat assume j: "j < 10"
    then have "real j \<le> 9" by simp
    then have "real j * ?q + 1 / 500 < 1 - ?q / 2" by simp
    moreover from j have "j \<le> 1000000" by simp
    ultimately show "guard_after 1 (double_round (1 / 10)) j"
      unfolding double_round_tenth using guard_after_bounds(1) [OF q _ T] by blast
  qed
  have "1 - ?q / 2 + 1 / 500 \<le> real 10 * ?q" by simp
  moreover have "(10::nat) \<le> 1000000" by simp
  ultimately show "\<not> guard_after 1 (double_round (1 / 10)) 10"
    unfolding double_round_tenth using guard_after_bounds(2) [OF q _ T] by blast
qed

text \<open>
  C7, as stated: the loop of \<open>solve\<close> ends exactly when the time that remains to \<open>T\<close> is
  less than half a step.  With \<open>T = 0.25\<close> and \<open>deltat = 0.5\<close>, all of them doubles, it
  ends at once, with no step made, although the time that remains, 0.25, is then equal
  to half a step and not less.
\<close>

theorem time_loop_half_step_counterexample:
  "\<exists>st'. solve (one_cell (\<lambda>a. 0)) (setup_problem (one_cell (\<lambda>a. 0)) half_step_problem) =
       Some (Inr (st', 0, 1)) \<and>
     T st' - time st' = 1 / 4 \<and> 0.5 * deltat st' = 1 / 4 \<and>
     \<not> T st' - time st' < 0.5 * deltat st'"
proof -
  let ?lib = "one_cell (\<lambda>a. 0)"
  let ?st = "setup_problem ?lib half_step_problem"
  have fresh: "snapshots (trace ?st) = []"
    by (simp add: setup_problem_fields half_step_problem_def construct_fields)
  have bound: "(0::nat) < 300000" by simp
  have before: "\<forall>j<0. guard_after (T ?st) (deltat ?st) j"
    by simp
  have last: "\<not> guard_after (T ?st) (deltat ?st) 0"
    using half_step_guard
    by (simp add: setup_problem_fields half_step_problem_def construct_fields)
  from solve_steps [OF one_cell_total fresh bound before last]
  obtain st' where "solve ?lib ?st = Some (Inr (st', 0, 1))" and "loop_invariant (st', 0, 1)"
    and "T st' = 1 / 4" and "deltat st' = 1 / 2"
    by (auto simp: setup_problem_fields half_step_problem_def construct_fields)
  then have "solve ?lib ?st = Some (Inr (st', 0, 1)) \<and>
     T st' - time st' = 1 / 4 \<and> 0.5 * deltat st' = 1 / 4 \<and>
     \<not> T st' - time st' < 0.5 * deltat st'"
    by (simp add: loop_invariant_def)
  then show ?thesis ..
qed

text \<open>
  C7, amended: the loop adds \<open>deltat\<close> to the time, starting from 0, with the rounding of
  an addition of doubles, and ends at the first number \<open>n\<close> of passes after which the
  time is not below the double of \<open>T - 0.5 * deltat\<close>: when the time that remains to \<open>T\<close>
  is at most half a step, up to the rounding.  When the linear solver never throws and
  \<open>n\<close> is below 300000, so that every frame index has at most four digits, \<open>solve\<close>
  returns after exactly \<open>n\<close> steps.  For time steps between 0 and 1 and final times up
  to a million, \<open>n * deltat\<close> is within 1/500 of being the first multiple of the step
  that is not more than half a step before \<open>T\<close>.  For \<open>T = 1.0\<close> and \<open>deltat = 0.1\<close>,
  \<open>n\<close> is 10.
\<close>

theorem time_loop_count:
  assumes "\<forall>m tol A x b. \<exists>r. solver_solve lib m tol A x b = Inr r"
    and "n < 300000"
    and "\<forall>j<n. guard_after T' deltat' j"
    and "\<not> guard_after T' deltat' n"
  shows "(\<exists>st'. solve lib (setup_problem lib (construct N' r' T' deltat')) =
         Some (Inr (st', n, n div 30 + 1)) \<and>
       time st' = time_after deltat' n \<and>
       \<not> time st' < fsub (T st') (fmul 0.5 (deltat st'))) \<and>
     (0 \<le> deltat' \<and> deltat' \<le> 1 \<and> \<bar>T'\<bar> \<le> 1000000 \<longrightarrow>
        T' - deltat' / 2 - 1 / 500 \<le> real n * deltat' \<and>
        (\<forall>j<n. real j * deltat' < T' - deltat' / 2 + 1 / 500)) \<and>
     (T' = 1 \<and> deltat' = double_round 0.1 \<longrightarrow> n = 10)"
proof (intro conjI impI)
  let ?st = "setup_problem lib (construct N' r' T' deltat')"
  have fresh: "snapshots (trace ?st) = []"
    by (simp add: setup_problem_fields construct_fields)
  have before: "\<forall>j<n. guard_after (T ?st) (deltat ?st) j"
    using assms(3) by (simp add: setup_problem_fields construct_fields)
  have last: "\<not> guard_after (T ?st) (deltat ?st) n"
    using assms(4) by (simp add: setup_problem_fields construct_fields)
  from solve_steps [OF assms(1) fresh assms(2) before last]
  obtain st' where s: "solve lib ?st = Some (Inr (st', n, n div 30 + 1))"
    and inv: "loop_invariant (st', n, n div 30 + 1)"
    and f: "T st' = T'" "deltat st' = deltat'"
    by (auto simp: setup_problem_fields construct_fields)
  from inv f have t: "time st' = time_after deltat' n"
    by (simp add: loop_invariant_def)
  with assms(4) f have "\<not> time st' < fsub (T st') (fmul 0.5 (deltat st'))"
    by (simp add: guard_after_def)
  with s t show "\<exists>st'. solve lib ?st = Some (Inr (st', n, n div 30 + 1)) \<and>
       time st' = time_after deltat' n \<and>
       \<not> time st' < fsub (T st') (fmul 0.5 (deltat st'))"
    by blast
next
  assume c: "0 \<le> deltat' \<and> deltat' \<le> 1 \<and> \<bar>T'\<bar> \<le> 1000000"
  then have q: "0 \<le> deltat'" "deltat' \<le> 1" and T: "\<bar>T'\<bar> \<le> 1000000"
    by simp_all
  from assms(2) have n: "n \<le> 1000000" by simp
  have "\<not> real n * deltat' + 1 / 500 < T' - deltat' / 2"
    using guard_after_bounds(1) [OF q n T] assms(4) by blast
  then show "T' - deltat' / 2 - 1 / 500 \<le> real n * deltat'"
    by linarith
  show "\<forall>j<n. real j * deltat' < T' - deltat' / 2 + 1 / 500"
  proof (intro allI impI)
    fix j assume j: "j < n"
    with n have "j \<le> 1000000" by simp
    from guard_after_bounds(2) [OF q this T] assms(3) j
    have "\<not> T' - deltat' / 2 + 1 / 500 \<le> real j * deltat'"
      by blast
    then show "real j * deltat' < T' - deltat' / 2 + 1 / 500"
      by linarith
  qed
next
  assume c: "T' = 1 \<and> deltat' = double_round 0.1"
  then have g: "\<forall>j<n. guard_after 1 (double_round (1 / 10)) j"
    and l: "\<not> guard_after 1 (double_round (1 / 10)) n"
    using assms(3,4) by simp_all
  have "\<not> 10 < n"
    using g ten_steps(2) by blast
  moreover have "\<not> n < 10"
    using l ten_steps(1) by blast
  ultimately show "n = 10" by simp
qed

theorem time_loop_count_witness:
  "(\<forall>m tol A x b. \<exists>r. solver_solve (one_cell (\<lambda>a. 0)) m tol A x b = Inr r) \<and>
   (10::nat) < 300000 \<and>
   guard_after 1 (double_round 0.1) 9 \<and>
   \<not> guard_after 1 (double_round 0.1) 10 \<and>
   (\<exists>st'. solve (one_cell (\<lambda>a. 0))
        (setup_problem (one_cell (\<lambda>a. 0)) (construct 19 1 1 (double_round 0.1))) =
        Some (Inr (st', 10, 1)) \<and> time st' = time_after (double_round 0.1) 10)"
proof -
  have b: "(10::nat) < 300000" by simp
  have before: "\<forall>j<10. guard_after 1 (double_round 0.1) j"
    using ten_steps(1) by simp
  have last: "\<not> guard_after 1 (double_round 0.1) 10"
    using ten_steps(2) by simp
  from time_loop_count [OF one_cell_total b before last, of "\<lambda>a. 0" 19 1]
  have "\<exists>st'. solve (one_cell (\<lambda>a. 0))
        (setup_problem (one_cell (\<lambda>a. 0)) (construct 19 1 1 (double_round 0.1))) =
        Some (Inr (st', 10, 1)) \<and> time st' = time_after (double_round 0.1) 10"
    by auto
  moreover from before have "guard_after 1 (double_round 0.1) 9"
    by simp
  ultimately show ?thesis
    using one_cell_total [of "\<lambda>a. 0"] b last by blast
qed

subsection \<open>The snapshots\<close>

text \<open>Up to 299999 time steps the snapshots are those of the steps 0, 30, 60, ..., with
  the frame indices 0, 1, 2, ...\<close>

lemma snapshot_cadence:
  assumes "\<forall>m tol A x b. \<exists>r. solver_solve lib m tol A x b = Inr r"
    and "n < 300000"
    and "\<forall>j<n. guard_after T' deltat' j"
    and "\<not> guard_after T' deltat' n"
  shows "\<exists>st'. solve lib (setup_problem lib (construct N' r' T' deltat')) =
         Some (Inr (st', n, n div 30 + 1)) \<and>
       snapshots (trace st') =
         map (\<lambda>k. (output_file_name k, time_after deltat' (30 * k))) [0..<n div 30 + 1]"
proof -
  let ?st = "setup_problem lib (construct N' r' T' deltat')"
  have fresh: "snapshots (trace ?st) = []"
    by (simp add: setup_problem_fields construct_fields)
  have before: "\<forall>j<n. guard_after (T ?st) (deltat ?st) j"
    using assms(3) by (simp add: setup_problem_fields construct_fields)
  have last: "\<not> guard_after (T ?st) (deltat ?st) n"
    using assms(4) by (simp add: setup_problem_fields construct_fields)
  from solve_steps [OF assms(1) fresh assms(2) before last]
  obtain st' where s: "solve lib ?st = Some (Inr (st', n, n div 30 + 1))"
    and inv: "loop_invariant (st', n, n div 30 + 1)"
    and f: "deltat st' = deltat'"
    by (auto simp: setup_problem_fields construct_fields)
  from inv f have "snapshots (trace st') =
         map (\<lambda>k. (output_file_name k, time_after deltat' (30 * k))) [0..<n div 30 + 1]"
    by (simp add: loop_invariant_def)
  with s show ?thesis by blast
qed

lemma replicate_3: "replicate 3 c = [c, c, c]"
  by (simp add: numeral_3_eq_3)

lemma output_file_names:
  "map output_file_name [0, 1, 2, 3, 4, 5] =
     [''output-0000'', ''output-0001'', ''output-0002'', ''output-0003'', ''output-0004'',
      ''output-0005'']"
  by (simp add: output_file_name_def to_string.simps digit_char_def replicate_3)

text \<open>The run of \<open>main\<close>, 150 steps, writes the six snapshots of the steps 0, 30, ..., 150.\<close>

lemma main_snapshots:
  assumes "\<forall>m tol A x b. \<exists>r. solver_solve lib m tol A x b = Inr r"
  shows "\<exists>st'. main lib = Some (Inr (st', 150, 6)) \<and>
     map fst (snapshots (trace st')) =
       [''output-0000'', ''output-0001'', ''output-0002'', ''output-0003'', ''output-0004'',
        ''output-0005''] \<and>
     map snd (snapshots (trace st')) =
       map (\<lambda>k. time_after (deltat problem) (30 * k)) [0, 1, 2, 3, 4, 5]"
proof -
  from main_run [OF assms]
  obtain st' where s: "main lib = Some (Inr (st', 150, 6))"
    and inv: "loop_invariant (st', 150, 6)" and f: "deltat st' = deltat problem"
    by blast
  have u: "[0..<150 div 30 + 1] = [0, 1, 2, 3, 4, 5::nat]"
    by (simp add: upt_rec)
  from inv have sn: "snapshots (trace st') =
      map (\<lambda>k. (output_file_name k, time_after (deltat st') (30 * k))) [0..<150 div 30 + 1]"
    unfolding loop_invariant_def prod.case by (elim conjE)
  have "map fst (snapshots (trace st')) = map output_file_name [0, 1, 2, 3, 4, 5]"
    unfolding sn u by simp
  then have a: "map fst (snapshots (trace st')) =
       [''output-0000'', ''output-0001'', ''output-0002'', ''output-0003'', ''output-0004'',
        ''output-0005'']"
    unfolding output_file_names .
  have b: "map snd (snapshots (trace st')) =
       map (\<lambda>k. time_after (deltat problem) (30 * k)) [0, 1, 2, 3, 4, 5]"
    unfolding sn u f by simp
  from s a b show ?thesis
    by (intro exI [of _ st'] conjI)
qed

lemma long_run_guard: "\<forall>j<300000. guard_after 30000 (double_round (1 / 10)) j"
proof (intro allI impI)
  let ?q = "3602879701896397 / 36028797018963968 :: real"
  have q: "0 \<le> ?q" "?q \<le> 1" by simp_all
  have T: "\<bar>30000 :: real\<bar> \<le> 1000000" by simp
  fix j :: nat assume j: "j < 300000"
  then have "real j \<le> 299999" by simp
  then have "real j * ?q + 1 / 500 < 30000 - ?q / 2" by simp
  moreover from j have "j \<le> 1000000" by simp
  ultimately show "guard_after 30000 (double_round (1 / 10)) j"
    unfolding double_round_tenth using guard_after_bounds(1) [OF q _ T] by blast
qed

text \<open>
  C8: the snapshot of the initial condition is written first, with the frame index 0,
  and a snapshot follows at every time step that is a multiple of 30, with the next frame
  index; the 150 steps of \<open>main\<close> give six snapshots.  So it is up to the step 299999.
  The step 300000 is a multiple of 30, and its frame index is 10000: \<open>output\<close> pads the
  index to four digits with \<open>std::string(4 - output_file_name.size(), '0')\<close>, which for
  five digits throws \<open>std::length_error\<close>.  A run with \<open>T = 30000\<close> and \<open>deltat = 0.1\<close>
  reaches that step: it writes no snapshot there and ends with the exception.
\<close>

theorem snapshot_frame_10000:
  "T long_problem = 30000 \<and> deltat long_problem = double_round 0.1 \<and>
   length (to_string 10000) = 5 \<and>
   solve (one_cell (\<lambda>a. 0)) (setup_problem (one_cell (\<lambda>a. 0)) long_problem) =
     Some (Inl Length_error)"
proof -
  let ?lib = "one_cell (\<lambda>a. 0)"
  let ?st = "setup_problem ?lib long_problem"
  have fresh: "snapshots (trace ?st) = []"
    by (simp add: setup_problem_fields long_problem_def construct_fields)
  have before: "\<forall>j<300000. guard_after (T ?st) (deltat ?st) j"
    using long_run_guard
    by (simp add: setup_problem_fields long_problem_def construct_fields)
  have "solve ?lib ?st = Some (Inl Length_error)"
    using one_cell_total fresh before by (rule solve_frame_overflow)
  moreover have "length (to_string 10000) = 5"
    by (simp add: to_string.simps)
  ultimately show ?thesis
    by (simp add: long_problem_def construct_fields)
qed

subsection \<open>The exception of the linear solver\<close>

lemma assemble_cell_solver:
  "assemble_cell (lib\<lparr>solver_solve := s\<rparr>) = assemble_cell lib"
  by (intro ext) (simp add: assemble_cell_def)

lemma assemble_system_solver:
  "assemble_system (lib\<lparr>solver_solve := s\<rparr>) st = assemble_system lib st"
  unfolding assemble_system_def assemble_cell_solver by simp

lemma newton_loop_raise:
  assumes "exceeds (l2_norm lib (residual_vector (assemble_system lib st))) residual_tolerance"
    and "solver_solve lib 1000
           (scaled (1 / 10 ^ 6) (l2_norm lib (residual_vector (assemble_system lib st))))
           (jacobian_matrix (assemble_system lib st)) (delta_owned st)
           (residual_vector (assemble_system lib st)) = Inl e"
    and "n_iter < n_max_iters" and "exceeds r_prev residual_tolerance"
  shows "newton_loop lib st n_iter r_prev = Inl e"
  using assms(3,4)
  by (simp add: newton_loop.simps [of lib st n_iter r_prev] newton_body_raise [OF assms(1,2)])

lemma solve_newton_raise:
  assumes "exceeds (l2_norm lib (residual_vector (assemble_system lib st))) residual_tolerance"
    and "solver_solve lib 1000
           (scaled (1 / 10 ^ 6) (l2_norm lib (residual_vector (assemble_system lib st))))
           (jacobian_matrix (assemble_system lib st)) (delta_owned st)
           (residual_vector (assemble_system lib st)) = Inl e"
  shows "solve_newton lib st = Inl e"
proof -
  have "(0::nat) < n_max_iters" by (simp add: n_max_iters_def)
  moreover have "exceeds (Number (residual_tolerance + 1)) residual_tolerance"
    by (simp add: exceeds_def)
  ultimately have "newton_loop lib st 0 (Number (residual_tolerance + 1)) = Inl e"
    by (rule newton_loop_raise [OF assms])
  then show ?thesis by (simp add: solve_newton_def)
qed

lemma time_step_body_raise:
  assumes "solve_newton lib (st\<lparr>time := fadd (time st) (deltat st), solution_old := solution st,
      trace := trace st @ [Step_line ((ts + 1) mod 2 ^ 32) (fadd (time st) (deltat st))]\<rparr>) = Inl e"
  shows "time_step_body lib (st, ts, tt) = Inl e"
  using assms by (simp add: time_step_body_def Let_def)

lemma one_cell_stalled_assemble:
  "assemble_system (one_cell_stalled g) st = assemble_system (one_cell g) st"
  unfolding one_cell_stalled_def by (rule assemble_system_solver)

lemma one_cell_stalled_fields:
  "l2_norm (one_cell_stalled g) v = Number \<bar>v 0\<bar>"
  "solver_solve (one_cell_stalled g) m tol A x b = Inl (NoConvergence m \<bar>b 0\<bar>)"
  by (simp_all add: one_cell_stalled_def one_cell_def)

lemma eighth_guard: "0 < fsub 15 (fmul 0.5 (1 / 8))"
proof -
  have "(0::real) \<le> 1 / 8" "(1::real) / 8 \<le> 1" "(0::nat) \<le> 1000000" "\<bar>15::real\<bar> \<le> 1000000"
    by simp_all
  from guard_after_bounds(1) [OF this] show ?thesis
    by (simp add: guard_after_def)
qed


lemma half_state_fields:
  "T half_state = 15"
  "deltat half_state = 1 / 8"
  "time half_state = 0"
  "trace half_state = []"
  "solution half_state = (\<lambda>_. 1 / 2)"
  "solution_old half_state = (\<lambda>_. 1 / 2)"
  "solution_owned half_state = (\<lambda>_. 1 / 2)"
  "delta_owned half_state = (\<lambda>_. 0)"
  by (simp_all add: half_state_def eighth_problem_def construct_def)

lemma half_state_remains: "time_remains half_state"
  using eighth_guard by (simp add: time_remains_def half_state_fields)

text \<open>
  C5, as stated: when the Krylov solver reaches its cap of 1000 iterations, the Newton
  driver gets a signal, the increment is applied and the run goes on.  The solver of the
  library signals the cap by throwing \<open>SolverControl::NoConvergence\<close>, and no function
  of the program catches it.  On the mesh of one element with a solver that uses up its
  steps, the first time step of a state with the residual norm 1/2 ends with that
  exception, and so does the time loop: no increment is applied and the run halts.
\<close>

theorem solver_cap_counterexample:
  "time_step_body (one_cell_stalled (\<lambda>a. 0)) (half_state, 0, 1) =
     Inl (NoConvergence 1000 (1 / 2)) \<and>
   time_loop (one_cell_stalled (\<lambda>a. 0)) (half_state, 0, 1) =
     Some (Inl (NoConvergence 1000 (1 / 2)))"
proof -
  let ?lib = "one_cell_stalled (\<lambda>a. 0)"
  let ?st1 = "half_state\<lparr>time := fadd (time half_state) (deltat half_state),
      solution_old := solution half_state,
      trace := trace half_state @
        [Step_line ((0 + 1) mod 2 ^ 32) (fadd (time half_state) (deltat half_state))]\<rparr>"
  have r: "residual_vector (assemble_system ?lib ?st1) = (\<lambda>_. 0)(0 := 1 / 2)"
    by (simp add: one_cell_stalled_assemble one_cell_residual half_state_fields)
  have large: "exceeds (l2_norm ?lib (residual_vector (assemble_system ?lib ?st1)))
      residual_tolerance"
    unfolding r by (simp add: one_cell_stalled_fields exceeds_def residual_tolerance_def)
  have s: "solver_solve ?lib 1000
      (scaled (1 / 10 ^ 6) (l2_norm ?lib (residual_vector (assemble_system ?lib ?st1))))
      (jacobian_matrix (assemble_system ?lib ?st1)) (delta_owned ?st1)
      (residual_vector (assemble_system ?lib ?st1)) = Inl (NoConvergence 1000 (1 / 2))"
    unfolding r by (simp add: one_cell_stalled_fields)
  from solve_newton_raise [OF large s]
  have b: "time_step_body ?lib (half_state, 0, 1) = Inl (NoConvergence 1000 (1 / 2))"
    by (rule time_step_body_raise)
  then have "time_loop ?lib (half_state, 0, 1) = Some (Inl (NoConvergence 1000 (1 / 2)))"
    by (simp add: time_loop_step [OF half_state_remains])
  with b show ?thesis ..
qed

text \<open>
  C5, amended: the solver of the library ends a solve that reaches the cap of 1000
  iterations with the exception \<open>SolverControl::NoConvergence\<close>.  Nothing catches it:
  the Newton pass, the Newton sweep, the time step and the time loop end with that
  exception, no increment is applied and nothing is printed about it.  An increment is
  applied, and the number of iterations printed, when the solver returns.
\<close>

theorem solver_failure_propagates:
  "(exceeds (l2_norm lib (residual_vector (assemble_system lib st))) residual_tolerance \<longrightarrow>
     (solver_solve lib 1000
          (scaled (1 / 10 ^ 6) (l2_norm lib (residual_vector (assemble_system lib st))))
          (jacobian_matrix (assemble_system lib st)) (delta_owned st)
          (residual_vector (assemble_system lib st)) = Inl e \<longrightarrow>
        newton_body lib st n_iter = Inl e \<and> solve_newton lib st = Inl e \<and>
        (n_iter < n_max_iters \<and> exceeds r_prev residual_tolerance \<longrightarrow>
           newton_loop lib st n_iter r_prev = Inl e)) \<and>
     (solver_solve lib 1000
          (scaled (1 / 10 ^ 6) (l2_norm lib (residual_vector (assemble_system lib st))))
          (jacobian_matrix (assemble_system lib st)) (delta_owned st)
          (residual_vector (assemble_system lib st)) = Inr (x, k) \<longrightarrow>
        (\<exists>st'. newton_body lib st n_iter =
             Inr (st', l2_norm lib (residual_vector (assemble_system lib st))) \<and>
           delta_owned st' = x \<and>
           solution_owned st' = (\<lambda>i. solution_owned st i + x i) \<and>
           solution st' = solution_owned st' \<and>
           CG_iterations k \<in> set (trace st')))) \<and>
   (solve_newton lib (st0\<lparr>time := fadd (time st0) (deltat st0), solution_old := solution st0,
        trace := trace st0 @
          [Step_line ((ts + 1) mod 2 ^ 32) (fadd (time st0) (deltat st0))]\<rparr>) = Inl e' \<longrightarrow>
      time_step_body lib (st0, ts, tt) = Inl e' \<and>
      (time_remains st0 \<longrightarrow> time_loop lib (st0, ts, tt) = Some (Inl e')))"
proof (intro conjI impI)
  assume large: "exceeds (l2_norm lib (residual_vector (assemble_system lib st)))
      residual_tolerance"
    and s: "solver_solve lib 1000
          (scaled (1 / 10 ^ 6) (l2_norm lib (residual_vector (assemble_system lib st))))
          (jacobian_matrix (assemble_system lib st)) (delta_owned st)
          (residual_vector (assemble_system lib st)) = Inl e"
  show "newton_body lib st n_iter = Inl e"
    using large s by (rule newton_body_raise)
  show "solve_newton lib st = Inl e"
    using large s by (rule solve_newton_raise)
  assume "n_iter < n_max_iters \<and> exceeds r_prev residual_tolerance"
  then show "newton_loop lib st n_iter r_prev = Inl e"
    using newton_loop_raise [OF large s] by blast
next
  assume large: "exceeds (l2_norm lib (residual_vector (assemble_system lib st)))
      residual_tolerance"
    and s: "solver_solve lib 1000
          (scaled (1 / 10 ^ 6) (l2_norm lib (residual_vector (assemble_system lib st))))
          (jacobian_matrix (assemble_system lib st)) (delta_owned st)
          (residual_vector (assemble_system lib st)) = Inr (x, k)"
  note b = newton_body_large [OF large s, of n_iter]
  let ?st' = "(assemble_system lib st)\<lparr>delta_owned := x,
            solution_owned := (\<lambda>k. solution_owned st k + x k),
            solution := (\<lambda>k. solution_owned st k + x k),
            trace := trace st @
              [Timer_enter ''Assemble system'', Timer_leave ''Assemble system'',
               Newton_line n_iter n_max_iters (l2_norm lib (residual_vector (assemble_system lib st))),
               Timer_enter ''Solve system'', CG_iterations k,
               Timer_leave ''Solve system'']\<rparr>"
  from b show "\<exists>st'. newton_body lib st n_iter =
             Inr (st', l2_norm lib (residual_vector (assemble_system lib st))) \<and>
           delta_owned st' = x \<and>
           solution_owned st' = (\<lambda>i. solution_owned st i + x i) \<and>
           solution st' = solution_owned st' \<and>
           CG_iterations k \<in> set (trace st')"
    by (intro exI [of _ ?st']) simp
next
  assume n: "solve_newton lib (st0\<lparr>time := fadd (time st0) (deltat st0),
        solution_old := solution st0,
        trace := trace st0 @
          [Step_line ((ts + 1) mod 2 ^ 32) (fadd (time st0) (deltat st0))]\<rparr>) = Inl e'"
  then show b: "time_step_body lib (st0, ts, tt) = Inl e'"
    by (rule time_step_body_raise)
  assume "time_remains st0"
  then show "time_loop lib (st0, ts, tt) = Some (Inl e')"
    by (simp add: time_loop_step b)
qed


theorem solver_failure_propagates_witness:
  "exceeds (l2_norm (one_cell_stalled (\<lambda>a. 0))
      (residual_vector (assemble_system (one_cell_stalled (\<lambda>a. 0)) half_state)))
      residual_tolerance \<and>
   newton_body (one_cell_stalled (\<lambda>a. 0)) half_state 0 = Inl (NoConvergence 1000 (1 / 2)) \<and>
   newton_loop (one_cell_stalled (\<lambda>a. 0)) half_state 0 (Number (residual_tolerance + 1)) =
     Inl (NoConvergence 1000 (1 / 2)) \<and>
   time_remains half_state \<and>
   time_loop (one_cell_stalled (\<lambda>a. 0)) (half_state, 0, 1) =
     Some (Inl (NoConvergence 1000 (1 / 2))) \<and>
   (\<exists>st'. newton_body (one_cell (\<lambda>a. 0)) half_state 0 = Inr (st', Number (1 / 2)) \<and>
      solution st' 0 = 9 / 16 \<and> CG_iterations 1 \<in> set (trace st'))"
proof -
  let ?stalled = "one_cell_stalled (\<lambda>a. 0)"
  let ?lib = "one_cell (\<lambda>a. 0)"
  let ?e = "NoConvergence 1000 (1 / 2)"
  let ?st1 = "half_state\<lparr>time := fadd (time half_state) (deltat half_state),
      solution_old := solution half_state,
      trace := trace half_state @
        [Step_line ((0 + 1) mod 2 ^ 32) (fadd (time half_state) (deltat half_state))]\<rparr>"
  have r0: "residual_vector (assemble_system ?stalled half_state) = (\<lambda>_. 0)(0 := 1 / 2)"
    by (simp add: one_cell_stalled_assemble one_cell_residual half_state_fields)
  have large0: "exceeds (l2_norm ?stalled (residual_vector (assemble_system ?stalled half_state)))
      residual_tolerance"
    unfolding r0 by (simp add: one_cell_stalled_fields exceeds_def residual_tolerance_def)
  have s0: "solver_solve ?stalled 1000
      (scaled (1 / 10 ^ 6) (l2_norm ?stalled (residual_vector (assemble_system ?stalled half_state))))
      (jacobian_matrix (assemble_system ?stalled half_state)) (delta_owned half_state)
      (residual_vector (assemble_system ?stalled half_state)) = Inl ?e"
    unfolding r0 by (simp add: one_cell_stalled_fields)
  have start: "0 < n_max_iters \<and> exceeds (Number (residual_tolerance + 1)) residual_tolerance"
    by (simp add: n_max_iters_def exceeds_def)
  note th0 = solver_failure_propagates [where lib = ?stalled and st = half_state and e = ?e
      and n_iter = 0 and r_prev = "Number (residual_tolerance + 1)",
      THEN conjunct1, rule_format, OF large0, THEN conjunct1, rule_format, OF s0]
  from th0 have a1: "newton_body ?stalled half_state 0 = Inl ?e" ..
  from th0 start have a2: "newton_loop ?stalled half_state 0 (Number (residual_tolerance + 1)) = Inl ?e"
    by blast
  have r1: "residual_vector (assemble_system ?stalled ?st1) = (\<lambda>_. 0)(0 := 1 / 2)"
    by (simp add: one_cell_stalled_assemble one_cell_residual half_state_fields)
  have large1: "exceeds (l2_norm ?stalled (residual_vector (assemble_system ?stalled ?st1)))
      residual_tolerance"
    unfolding r1 by (simp add: one_cell_stalled_fields exceeds_def residual_tolerance_def)
  have s1: "solver_solve ?stalled 1000
      (scaled (1 / 10 ^ 6) (l2_norm ?stalled (residual_vector (assemble_system ?stalled ?st1))))
      (jacobian_matrix (assemble_system ?stalled ?st1)) (delta_owned ?st1)
      (residual_vector (assemble_system ?stalled ?st1)) = Inl ?e"
    unfolding r1 by (simp add: one_cell_stalled_fields)
  note th1 = solver_failure_propagates [where lib = ?stalled and st = ?st1 and e = ?e
      and st0 = half_state and ts = 0 and tt = 1 and e' = ?e]
  from th1 [THEN conjunct1, rule_format, OF large1, THEN conjunct1, rule_format, OF s1]
  have n: "solve_newton ?stalled ?st1 = Inl ?e"
    by blast
  from th1 [THEN conjunct2, rule_format, OF n] half_state_remains
  have a3: "time_loop ?stalled (half_state, 0, 1) = Some (Inl ?e)"
    by blast
  have r: "residual_vector (assemble_system ?lib half_state) = (\<lambda>_. 0)(0 := 1 / 2)"
    by (simp add: one_cell_residual half_state_fields)
  have j: "jacobian_matrix (assemble_system ?lib half_state) = (\<lambda>_. 0)((0, 0) := 8)"
    by (simp add: one_cell_jacobian half_state_fields)
  have norm: "l2_norm ?lib (residual_vector (assemble_system ?lib half_state)) = Number (1 / 2)"
    unfolding r by (simp add: one_cell_norm)
  have large: "exceeds (l2_norm ?lib (residual_vector (assemble_system ?lib half_state)))
      residual_tolerance"
    unfolding norm by (simp add: exceeds_def residual_tolerance_def)
  have s: "solver_solve ?lib 1000
      (scaled (1 / 10 ^ 6) (l2_norm ?lib (residual_vector (assemble_system ?lib half_state))))
      (jacobian_matrix (assemble_system ?lib half_state)) (delta_owned half_state)
      (residual_vector (assemble_system ?lib half_state)) =
        Inr (\<lambda>k. if k = 0 then 1 / 16 else 0, 1)"
    unfolding r j by (simp add: one_cell_solver fun_eq_iff)
  from solver_failure_propagates [where lib = ?lib and st = half_state and n_iter = 0
      and x = "\<lambda>k. if k = 0 then 1 / 16 else 0" and k = 1,
      THEN conjunct1, rule_format, OF large, THEN conjunct2, rule_format, OF s]
  obtain st' where "newton_body ?lib half_state 0 =
        Inr (st', l2_norm ?lib (residual_vector (assemble_system ?lib half_state)))"
    and "solution_owned st' = (\<lambda>i. solution_owned half_state i + (if i = 0 then 1 / 16 else 0))"
    and "solution st' = solution_owned st'"
    and "CG_iterations 1 \<in> set (trace st')"
    by blast
  then have "newton_body ?lib half_state 0 = Inr (st', Number (1 / 2)) \<and>
      solution st' 0 = 9 / 16 \<and> CG_iterations 1 \<in> set (trace st')"
    by (simp add: norm half_state_fields)
  then have a4: "\<exists>st'. newton_body ?lib half_state 0 = Inr (st', Number (1 / 2)) \<and>
      solution st' 0 = 9 / 16 \<and> CG_iterations 1 \<in> set (trace st')" ..
  from large0 a1 a2 half_state_remains a3 a4 show ?thesis
    by (intro conjI)
qed

subsection \<open>The time step is not checked\<close>

lemma newton_body_trace:
  assumes "newton_body lib st n_iter = Inr (st', rn)"
  shows "\<exists>es. trace st' = trace st @ Timer_enter ''Assemble system'' # es"
proof (cases "exceeds (l2_norm lib (residual_vector (assemble_system lib st))) residual_tolerance")
  case False
  from newton_body_small [OF False, of n_iter] assms show ?thesis
    by auto
next
  case True
  show ?thesis
  proof (cases "solver_solve lib 1000
           (scaled (1 / 10 ^ 6) (l2_norm lib (residual_vector (assemble_system lib st))))
           (jacobian_matrix (assemble_system lib st)) (delta_owned st)
           (residual_vector (assemble_system lib st))")
    case (Inl e)
    from newton_body_raise [OF True Inl, of n_iter] assms show ?thesis by simp
  next
    case (Inr p)
    obtain x k where p: "p = (x, k)" by (cases p)
    from newton_body_large [OF True Inr [unfolded p], of n_iter] assms show ?thesis
      by auto
  qed
qed

lemma newton_loop_trace:
  "newton_loop lib st n_iter rn = Inr (st', n', rn') \<Longrightarrow> \<exists>es. trace st' = trace st @ es"
proof (induction lib st n_iter rn rule: newton_loop.induct)
  case (1 lib st n_iter rn)
  show ?case
  proof (cases "n_iter < n_max_iters \<and> exceeds rn residual_tolerance")
    case False
    with "1.prems" show ?thesis
      by (simp add: newton_loop.simps [of lib st n_iter rn])
  next
    case True
    with "1.prems" obtain st1 rn1 where b: "newton_body lib st n_iter = Inr (st1, rn1)"
      and l: "newton_loop lib st1 (n_iter + 1) rn1 = Inr (st', n', rn')"
      by (auto simp: newton_loop.simps [of lib st n_iter rn] split: sum.splits)
    from "1.IH" [OF True b refl l] obtain es where "trace st' = trace st1 @ es" ..
    moreover from newton_body_trace [OF b] obtain fs
      where "trace st1 = trace st @ Timer_enter ''Assemble system'' # fs" ..
    ultimately have "trace st' = trace st @ (Timer_enter ''Assemble system'' # fs @ es)"
      by simp
    then show ?thesis ..
  qed
qed

lemma solve_newton_trace:
  assumes "solve_newton lib st = Inr st'"
  shows "\<exists>es. trace st' = trace st @ Timer_enter ''Assemble system'' # es"
proof -
  from assms obtain n' rn'
    where "newton_loop lib st 0 (Number (residual_tolerance + 1)) = Inr (st', n', rn')"
    by (auto simp: solve_newton_def split: sum.splits)
  then obtain st1 rn1 where b: "newton_body lib st 0 = Inr (st1, rn1)"
    and l: "newton_loop lib st1 (0 + 1) rn1 = Inr (st', n', rn')"
    by (auto simp: newton_loop.simps [of lib st 0] n_max_iters_def exceeds_def split: sum.splits)
  from newton_loop_trace [OF l] obtain es where "trace st' = trace st1 @ es" ..
  moreover from newton_body_trace [OF b] obtain fs
    where "trace st1 = trace st @ Timer_enter ''Assemble system'' # fs" ..
  ultimately have "trace st' = trace st @ Timer_enter ''Assemble system'' # (fs @ es)"
    by simp
  then show ?thesis ..
qed

lemma write_output_trace:
  "write_output st k t = Inr st' \<Longrightarrow> \<exists>es. trace st' = trace st @ es"
  by (auto simp: write_output_def Let_def split: if_splits)

lemma time_step_body_trace:
  assumes "time_step_body lib (st, ts, tt) = Inr (st', ts', tt')"
  shows "Timer_enter ''Assemble system'' \<in> set (trace st')"
proof -
  let ?st1 = "st\<lparr>time := fadd (time st) (deltat st), solution_old := solution st,
    trace := trace st @ [Step_line ((ts + 1) mod 2 ^ 32) (fadd (time st) (deltat st))]\<rparr>"
  from assms obtain st2 where n: "solve_newton lib ?st1 = Inr st2"
    by (cases "solve_newton lib ?st1") (simp_all add: time_step_body_def Let_def)
  from solve_newton_trace [OF n] have a: "Timer_enter ''Assemble system'' \<in> set (trace st2)"
    by auto
  show ?thesis
  proof (cases "(ts + 1) mod 2 ^ 32 mod 30 = 0")
    case False
    with assms n have "st' = st2\<lparr>trace := trace st2 @ [Print []]\<rparr>"
      by (simp_all add: time_step_body_def Let_def)
    with a show ?thesis by simp
  next
    case True
    with assms n obtain st3
      where w: "write_output (st2\<lparr>trace := trace st2 @ [Timer_enter ''Writing'']\<rparr>) tt (time st2) = Inr st3"
        and e: "st' = st3\<lparr>trace := trace st3 @ [Timer_leave ''Writing'', Print []]\<rparr>"
      by (cases "write_output (st2\<lparr>trace := trace st2 @ [Timer_enter ''Writing'']\<rparr>) tt (time st2)")
        (simp_all add: time_step_body_def Let_def)
    from write_output_trace [OF w] obtain es
      where "trace st3 = trace st2 @ Timer_enter ''Writing'' # es"
      by auto
    with a e show ?thesis by simp
  qed
qed

lemma backward_guard: "0 < fsub 15 (fmul 0.5 (- 1))"
proof -
  have h: "fmul (1 / 2) (- 1) = - (1 / 2)"
    unfolding fmul_def by (subst double_round_binade [of _ "- 1"]) (simp_all add: round_even_def)
  have "fsub 15 (- (1 / 2)) = 31 / 2"
    unfolding fsub_def by (subst double_round_binade [of _ 3]) (simp_all add: round_even_def)
  then show ?thesis
    by (simp add: h)
qed

lemma fadd_backward: "fadd 0 (- 1) = - 1"
  unfolding fadd_def by (subst double_round_binade [of _ 0]) (simp_all add: round_even_def)


lemma solve_initial: "solve lib st = time_loop lib (initial_state lib st, 0, 1)"
  unfolding initial_state_def by (rule solve_unfold)

lemma initial_state_fields:
  "T (initial_state lib st) = T st"
  "deltat (initial_state lib st) = deltat st"
  "D (initial_state lib st) = D st"
  "time (initial_state lib st) = 0"
  "solution_old (initial_state lib st) = solution_old st"
  "solution (initial_state lib st) = interpolate lib FunctionU0_value"
  "solution_owned (initial_state lib st) = interpolate lib FunctionU0_value"
  by (simp_all add: initial_state_def)

lemma initial_state_invariant:
  "snapshots (trace st) = [] \<Longrightarrow> loop_invariant (initial_state lib st, 0, 1)"
  by (simp add: loop_invariant_def initial_state_def snapshots_append)

lemma backward_problem_fields:
  "T backward_problem = 15"
  "deltat backward_problem = - 1"
  "trace backward_problem = []"
  by (simp_all add: backward_problem_def construct_fields)

text \<open>
  C4, as stated: a time step that is negative or zero is rejected before any assembly or
  time stepping begins.  Nothing in the program looks at the sign of \<open>deltat\<close>.  The
  object constructed with \<open>deltat = -1\<close> is set up, \<open>solve\<close> enters its loop, and the
  first pass of the loop runs to its end, at the time -1, with the assembler called.
\<close>

theorem nonpositive_step_counterexample:
  "deltat (setup_problem (one_cell (\<lambda>a. 0)) backward_problem) = - 1 \<and>
   solve (one_cell (\<lambda>a. 0)) (setup_problem (one_cell (\<lambda>a. 0)) backward_problem) =
     time_loop (one_cell (\<lambda>a. 0))
       (initial_state (one_cell (\<lambda>a. 0)) (setup_problem (one_cell (\<lambda>a. 0)) backward_problem),
        0, 1) \<and>
   time_remains
     (initial_state (one_cell (\<lambda>a. 0)) (setup_problem (one_cell (\<lambda>a. 0)) backward_problem)) \<and>
   (\<exists>st1. time_step_body (one_cell (\<lambda>a. 0))
        (initial_state (one_cell (\<lambda>a. 0)) (setup_problem (one_cell (\<lambda>a. 0)) backward_problem),
         0, 1) = Inr (st1, 1, 1) \<and>
      deltat st1 = - 1 \<and> time st1 = - 1 \<and>
      Timer_enter ''Assemble system'' \<in> set (trace st1))"
proof -
  let ?lib = "one_cell (\<lambda>a. 0)"
  let ?st = "setup_problem ?lib backward_problem"
  let ?init = "initial_state ?lib ?st"
  have d: "deltat ?st = - 1"
    by (simp add: setup_problem_fields backward_problem_fields)
  have g: "time_remains ?init"
    using backward_guard
    by (simp add: time_remains_def initial_state_fields setup_problem_fields
        backward_problem_fields)
  have fresh: "snapshots (trace ?st) = []"
    by (simp add: setup_problem_fields backward_problem_fields)
  have inv: "loop_invariant (?init, 0, 1)"
    using fresh by (rule initial_state_invariant)
  have bound: "(0::nat) + 1 < 300000" by simp
  from time_step_body_result [OF one_cell_total inv bound]
  obtain st1 where b: "time_step_body ?lib (?init, 0, 1) = Inr (st1, 1, 1)"
    and inv1: "loop_invariant (st1, 0 + 1, (0 + 1) div 30 + 1)"
    and dt: "deltat st1 = deltat ?init"
    by auto
  from dt d have d1: "deltat st1 = - 1"
    by (simp add: initial_state_fields)
  from inv1 have "time st1 = time_after (deltat st1) 1"
    by (simp add: loop_invariant_def)
  then have t1: "time st1 = - 1"
    by (simp add: d1 fadd_backward)
  from b have a: "Timer_enter ''Assemble system'' \<in> set (trace st1)"
    by (rule time_step_body_trace)
  from b d1 t1 a have "\<exists>st1. time_step_body ?lib (?init, 0, 1) = Inr (st1, 1, 1) \<and>
      deltat st1 = - 1 \<and> time st1 = - 1 \<and>
      Timer_enter ''Assemble system'' \<in> set (trace st1)"
    by (intro exI [of _ st1] conjI)
  with d solve_initial [of ?lib ?st] g show ?thesis
    by (intro conjI)
qed

text \<open>
  C4, amended: no time step is rejected.  The constructor stores whatever \<open>deltat\<close> it
  is given, and neither it nor \<open>setup\<close>, \<open>solve\<close>, \<open>solve_newton\<close> or the assembler
  checks it: \<open>solve\<close> enters its loop with the time step of the object, and every Newton
  sweep and every pass of the time loop that returns has called the assembler with that
  same time step, whatever its sign.  The time step that \<open>main\<close> passes is positive.
\<close>

theorem time_step_unchecked:
  "deltat (construct N' r' T' deltat') = deltat' \<and>
   deltat (setup_problem lib st) = deltat st \<and>
   solve lib st = time_loop lib (initial_state lib st, 0, 1) \<and>
   deltat (initial_state lib st) = deltat st \<and>
   (solve_newton lib sta = Inr st1 \<longrightarrow>
      deltat st1 = deltat sta \<and> Timer_enter ''Assemble system'' \<in> set (trace st1)) \<and>
   (time_step_body lib (stb, ts, tt) = Inr (st2, ts2, tt2) \<longrightarrow>
      deltat st2 = deltat stb \<and> Timer_enter ''Assemble system'' \<in> set (trace st2)) \<and>
   (solve lib stc = Some (Inr (st3, ts3, tt3)) \<longrightarrow> deltat st3 = deltat stc) \<and>
   0 < deltat problem"
proof (intro conjI impI)
  show "deltat (construct N' r' T' deltat') = deltat'"
    by (simp add: construct_fields)
  show "deltat (setup_problem lib st) = deltat st"
    by (simp add: setup_problem_fields)
  show "solve lib st = time_loop lib (initial_state lib st, 0, 1)"
    by (rule solve_initial)
  show "deltat (initial_state lib st) = deltat st"
    by (simp add: initial_state_fields)
  show "0 < deltat problem"
    by (simp add: problem_fields)
next
  assume n: "solve_newton lib sta = Inr st1"
  from solve_newton_frame [OF n] show "deltat st1 = deltat sta" by simp
  from solve_newton_trace [OF n] show "Timer_enter ''Assemble system'' \<in> set (trace st1)"
    by auto
next
  assume b: "time_step_body lib (stb, ts, tt) = Inr (st2, ts2, tt2)"
  from time_step_body_frame [OF b] show "deltat st2 = deltat stb" by simp
  from b show "Timer_enter ''Assemble system'' \<in> set (trace st2)"
    by (rule time_step_body_trace)
next
  assume s: "solve lib stc = Some (Inr (st3, ts3, tt3))"
  from solve_frame [OF s] show "deltat st3 = deltat stc" by simp
qed

theorem time_step_unchecked_witness:
  "(\<exists>st1. solve_newton (one_cell (\<lambda>a. 0)) (setup_problem (one_cell (\<lambda>a. 0)) problem) = Inr st1 \<and>
      deltat st1 = deltat problem \<and> Timer_enter ''Assemble system'' \<in> set (trace st1)) \<and>
   (\<exists>st2. time_step_body (one_cell (\<lambda>a. 0))
        (initial_state (one_cell (\<lambda>a. 0)) (setup_problem (one_cell (\<lambda>a. 0)) problem), 0, 1) =
        Inr (st2, 1, 1) \<and>
      deltat st2 = deltat problem \<and> Timer_enter ''Assemble system'' \<in> set (trace st2)) \<and>
   (\<exists>st3. solve (one_cell (\<lambda>a. 0)) (setup_problem (one_cell (\<lambda>a. 0)) problem) =
        Some (Inr (st3, 150, 6)) \<and> deltat st3 = deltat problem)"
proof -
  let ?lib = "one_cell (\<lambda>a. 0)"
  let ?st = "setup_problem ?lib problem"
  let ?init = "initial_state ?lib ?st"
  from solve_newton_total [OF one_cell_total, of "\<lambda>a. 0" ?st]
  obtain st1 where n: "solve_newton ?lib ?st = Inr st1" ..
  have fresh: "snapshots (trace ?st) = []"
    by (simp add: setup_problem_fields problem_fields)
  have inv: "loop_invariant (?init, 0, 1)"
    using fresh by (rule initial_state_invariant)
  have bound: "(0::nat) + 1 < 300000" by simp
  from time_step_body_result [OF one_cell_total inv bound]
  obtain st2 where b: "time_step_body ?lib (?init, 0, 1) = Inr (st2, 1, 1)"
    by auto
  from main_run [OF one_cell_total, of "\<lambda>a. 0"]
  obtain st3 where s: "solve ?lib ?st = Some (Inr (st3, 150, 6))"
    by (auto simp: main_def)
  note th = time_step_unchecked [where lib = ?lib and st = ?st and sta = ?st and ?st1.0 = st1
      and stb = ?init and ts = 0 and tt = 1 and ?st2.0 = st2 and ?ts2.0 = 1 and ?tt2.0 = 1
      and stc = ?st and ?st3.0 = st3 and ?ts3.0 = 150 and ?tt3.0 = 6]
  from th n have "deltat st1 = deltat problem \<and> Timer_enter ''Assemble system'' \<in> set (trace st1)"
    by (simp add: setup_problem_fields)
  with n have a1: "\<exists>st1. solve_newton ?lib ?st = Inr st1 \<and>
      deltat st1 = deltat problem \<and> Timer_enter ''Assemble system'' \<in> set (trace st1)"
    by (intro exI [of _ st1] conjI) simp_all
  from th b have "deltat st2 = deltat problem \<and> Timer_enter ''Assemble system'' \<in> set (trace st2)"
    by (simp add: setup_problem_fields initial_state_fields)
  with b have a2: "\<exists>st2. time_step_body ?lib (?init, 0, 1) = Inr (st2, 1, 1) \<and>
      deltat st2 = deltat problem \<and> Timer_enter ''Assemble system'' \<in> set (trace st2)"
    by (intro exI [of _ st2] conjI) simp_all
  from th s have "deltat st3 = deltat problem"
    by (simp add: setup_problem_fields)
  with s have a3: "\<exists>st3. solve ?lib ?st = Some (Inr (st3, 150, 6)) \<and> deltat st3 = deltat problem"
    by (intro exI [of _ st3] conjI)
  from a1 a2 a3 show ?thesis
    by (intro conjI)
qed

subsection \<open>A Newton sweep that reaches its cap\<close>

lemma newton_body_line:
  assumes "newton_body lib st n_iter = Inr (st', rn)"
  shows "Newton_line n_iter n_max_iters rn \<in> set (trace st')"
proof (cases "exceeds (l2_norm lib (residual_vector (assemble_system lib st))) residual_tolerance")
  case False
  from newton_body_small [OF False, of n_iter] assms show ?thesis
    by auto
next
  case True
  show ?thesis
  proof (cases "solver_solve lib 1000
           (scaled (1 / 10 ^ 6) (l2_norm lib (residual_vector (assemble_system lib st))))
           (jacobian_matrix (assemble_system lib st)) (delta_owned st)
           (residual_vector (assemble_system lib st))")
    case (Inl e)
    from newton_body_raise [OF True Inl, of n_iter] assms show ?thesis by simp
  next
    case (Inr p)
    obtain x k where p: "p = (x, k)" by (cases p)
    from newton_body_large [OF True Inr [unfolded p], of n_iter] assms show ?thesis
      by auto
  qed
qed

lemma newton_loop_last:
  "newton_loop lib st n_iter rn = Inr (st', n', rn') \<Longrightarrow>
     n_iter \<le> n' \<and> (n' = n_iter \<longrightarrow> st' = st \<and> rn' = rn) \<and>
     (n_iter < n' \<longrightarrow> Newton_line (n' - 1) n_max_iters rn' \<in> set (trace st'))"
proof (induction lib st n_iter rn rule: newton_loop.induct)
  case (1 lib st n_iter rn)
  show ?case
  proof (cases "n_iter < n_max_iters \<and> exceeds rn residual_tolerance")
    case False
    with "1.prems" show ?thesis
      by (simp add: newton_loop.simps [of lib st n_iter rn])
  next
    case True
    with "1.prems" obtain st1 rn1 where b: "newton_body lib st n_iter = Inr (st1, rn1)"
      and l: "newton_loop lib st1 (n_iter + 1) rn1 = Inr (st', n', rn')"
      by (auto simp: newton_loop.simps [of lib st n_iter rn] split: sum.splits)
    note IH = "1.IH" [OF True b refl l]
    from IH have le: "n_iter + 1 \<le> n'" by simp
    have "Newton_line (n' - 1) n_max_iters rn' \<in> set (trace st')"
    proof (cases "n' = n_iter + 1")
      case True
      with IH have "st' = st1" "rn' = rn1" by simp_all
      with newton_body_line [OF b] True show ?thesis by simp
    next
      case False
      with le have "n_iter + 1 < n'" by simp
      with IH show ?thesis by simp
    qed
    with le show ?thesis by simp
  qed
qed

lemma time_step_body_unfold:
  "time_step_body lib (st, ts, tt) =
     (case solve_newton lib (step_start st ts) of
        Inl e \<Rightarrow> Inl e
      | Inr st2 \<Rightarrow>
          if (ts + 1) mod 2 ^ 32 mod 30 = 0 then
            (case write_output (st2\<lparr>trace := trace st2 @ [Timer_enter ''Writing'']\<rparr>) tt (time st2) of
               Inl e \<Rightarrow> Inl e
             | Inr st3 \<Rightarrow>
                 Inr (st3\<lparr>trace := trace st3 @ [Timer_leave ''Writing'', Print []]\<rparr>,
                      (ts + 1) mod 2 ^ 32, (tt + 1) mod 2 ^ 32))
          else Inr (st2\<lparr>trace := trace st2 @ [Print []]\<rparr>, (ts + 1) mod 2 ^ 32, tt))"
  by (simp add: time_step_body_def step_start_def Let_def split: sum.splits)

lemma step_start_fields:
  "deltat (step_start st ts) = deltat st"
  "solution (step_start st ts) = solution st"
  "solution_old (step_start st ts) = solution st"
  "T (step_start st ts) = T st"
  by (simp_all add: step_start_def)

lemma no_root:
  fixes u :: real
  shows "\<bar>- (u - (- 1)) / 1 + 2 * u * (1 - u)\<bar> \<ge> 7 / 8"
proof -
  have "0 \<le> 2 * (u - 1 / 4) ^ 2" by simp
  also have "2 * (u - 1 / 4) ^ 2 = 2 * u * u - u + 1 / 8"
    by (simp add: power2_eq_square algebra_simps)
  finally have "- (u - (- 1)) / 1 + 2 * u * (1 - u) \<le> - (7 / 8)"
    by (simp add: algebra_simps)
  then show ?thesis by linarith
qed

lemma one_cell_diverges:
  "deltat st = 1 \<Longrightarrow> solution_old st 0 = - 1 \<Longrightarrow> n_iter \<le> n_max_iters \<Longrightarrow>
     exceeds rn residual_tolerance \<Longrightarrow>
     \<exists>st' rn'. newton_loop (one_cell (\<lambda>a. 0)) st n_iter rn = Inr (st', n_max_iters, rn') \<and>
       exceeds rn' residual_tolerance"
proof (induction "one_cell (\<lambda>a. 0)" st n_iter rn rule: newton_loop.induct)
  case (1 st n_iter rn)
  let ?lib = "one_cell (\<lambda>a. 0)"
  show ?case
  proof (cases "n_iter < n_max_iters")
    case False
    then have "newton_loop ?lib st n_iter rn = Inr (st, n_iter, rn)"
      by (simp add: newton_loop.simps [of ?lib st n_iter rn])
    moreover from False "1.prems"(3) have "n_iter = n_max_iters" by simp
    ultimately have "newton_loop ?lib st n_iter rn = Inr (st, n_max_iters, rn) \<and>
        exceeds rn residual_tolerance"
      using "1.prems"(4) by simp
    then show ?thesis by blast
  next
    case True
    with "1.prems"(4) have g: "n_iter < n_max_iters \<and> exceeds rn residual_tolerance" by simp
    obtain st1 rn1 where b: "newton_body ?lib st n_iter = Inr (st1, rn1)"
      using newton_body_total [of ?lib st n_iter] one_cell_total by (metis surj_pair)
    note f = newton_body_frame [OF b]
    from f "1.prems"(1,2) have i1: "deltat st1 = 1" "solution_old st1 0 = - 1" by simp_all
    from f have "rn1 = Number \<bar>- (solution st 0 - (- 1)) / 1 + 2 * solution st 0 * (1 - solution st 0)\<bar>"
      by (simp add: one_cell_residual one_cell_norm "1.prems"(1,2))
    moreover have "(7::real) / 8 > residual_tolerance"
      by (simp add: residual_tolerance_def)
    ultimately have e1: "exceeds rn1 residual_tolerance"
      using no_root [of "solution st 0"] by (simp add: exceeds_def)
    from True have le: "n_iter + 1 \<le> n_max_iters" by simp
    from "1.hyps" [OF g b refl i1 le e1] g b show ?thesis
      by (simp add: newton_loop.simps [of ?lib st n_iter rn])
  qed
qed


lemma diverging_state_fields:
  "T diverging_state = 15"
  "deltat diverging_state = 1"
  "time diverging_state = 0"
  "solution diverging_state = (\<lambda>_. - 1)"
  by (simp_all add: diverging_state_def unit_step_problem_def construct_def)

lemma unit_step_guards:
  "0 < fsub 15 (fmul 0.5 1)" "fadd 0 1 < fsub 15 (fmul 0.5 1)"
proof -
  have h: "(0::real) \<le> 1" "(1::real) \<le> 1" "\<bar>15::real\<bar> \<le> 1000000"
    by simp_all
  have "(0::nat) \<le> 1000000" by simp
  from guard_after_bounds(1) [OF h(1,2) this h(3)] show "0 < fsub 15 (fmul 0.5 1)"
    by (simp add: guard_after_def)
  have "(1::nat) \<le> 1000000" by simp
  from guard_after_bounds(1) [OF h(1,2) this h(3)] show "fadd 0 1 < fsub 15 (fmul 0.5 1)"
    by (simp add: guard_after_def)
qed

lemma diverging_sweep:
  "\<exists>st' rn. newton_loop (one_cell (\<lambda>a. 0)) (step_start diverging_state 0) 0
        (Number (residual_tolerance + 1)) = Inr (st', n_max_iters, rn) \<and>
     exceeds rn residual_tolerance"
proof -
  have "deltat (step_start diverging_state 0) = 1"
    by (simp add: step_start_fields diverging_state_fields)
  moreover have "solution_old (step_start diverging_state 0) 0 = - 1"
    by (simp add: step_start_fields diverging_state_fields)
  moreover have "(0::nat) \<le> n_max_iters" by simp
  moreover have "exceeds (Number (residual_tolerance + 1)) residual_tolerance"
    by (simp add: exceeds_def)
  ultimately show ?thesis
    by (rule one_cell_diverges)
qed

text \<open>
  C6, as stated: when the Newton loop reaches its cap of 1000 passes with the residual
  norm above the tolerance, the divergence is reported, a policy decides whether to go on,
  and the time integrator treats the time step as failed.  On the mesh of one element
  the sweep of the first time step of a state with the time step 1 and the value -1
  reaches the cap with a norm above the tolerance.  The pass of the time loop then ends
  as every pass does: the last iterate is kept, the step is counted as step 1, an empty
  line is printed, and the guard of the loop holds for the next pass.
\<close>

theorem newton_divergence_counterexample:
  "\<exists>st' rn. newton_loop (one_cell (\<lambda>a. 0)) (step_start diverging_state 0) 0
        (Number (residual_tolerance + 1)) = Inr (st', 1000, rn) \<and>
     exceeds rn residual_tolerance \<and>
     time_step_body (one_cell (\<lambda>a. 0)) (diverging_state, 0, 1) =
       Inr (st'\<lparr>trace := trace st' @ [Print []]\<rparr>, 1, 1) \<and>
     time_remains (st'\<lparr>trace := trace st' @ [Print []]\<rparr>)"
proof -
  let ?lib = "one_cell (\<lambda>a. 0)"
  from diverging_sweep obtain st' rn
    where l: "newton_loop ?lib (step_start diverging_state 0) 0
        (Number (residual_tolerance + 1)) = Inr (st', n_max_iters, rn)"
      and e: "exceeds rn residual_tolerance"
    by blast
  from l have n: "solve_newton ?lib (step_start diverging_state 0) = Inr st'"
    by (simp add: solve_newton_def)
  have b: "time_step_body ?lib (diverging_state, 0, 1) =
       Inr (st'\<lparr>trace := trace st' @ [Print []]\<rparr>, 1, 1)"
    by (simp add: time_step_body_unfold n)
  from newton_loop_frame [OF l]
  have "T st' = 15" "deltat st' = 1" "time st' = fadd 0 1"
    by (simp_all add: step_start_def diverging_state_fields)
  then have g: "time_remains (st'\<lparr>trace := trace st' @ [Print []]\<rparr>)"
    using unit_step_guards(2) by (simp add: time_remains_def)
  from l have l': "newton_loop ?lib (step_start diverging_state 0) 0
        (Number (residual_tolerance + 1)) = Inr (st', 1000, rn)"
    by (simp add: n_max_iters_def)
  from l' e b g show ?thesis
    by (intro exI [of _ st'] exI [of _ rn] conjI)
qed

text \<open>
  C6, amended: a Newton sweep that reaches the cap of 1000 passes with the residual norm
  above the tolerance returns as a converged sweep does.  All that tells of it is the
  line of its last pass, which gives the pass as 999 of 1000 and the norm of the residual
  of that pass.  There is no setting to go on or to abort, and the time integrator does
  not treat the time step as failed: whatever the count and the norm the sweep ended
  with, the pass of the time loop keeps the last iterate, counts the step, writes the
  snapshot if one is due, and the loop goes on with the next pass.
\<close>

theorem newton_divergence_unreported:
  "newton_loop lib (step_start st0 ts) 0 (Number (residual_tolerance + 1)) = Inr (st2, n, rn) \<longrightarrow>
     solve_newton lib (step_start st0 ts) = Inr st2 \<and>
     time_step_body lib (st0, ts, tt) =
       (if (ts + 1) mod 2 ^ 32 mod 30 = 0 then
          (case write_output (st2\<lparr>trace := trace st2 @ [Timer_enter ''Writing'']\<rparr>) tt (time st2) of
             Inl e \<Rightarrow> Inl e
           | Inr st3 \<Rightarrow>
               Inr (st3\<lparr>trace := trace st3 @ [Timer_leave ''Writing'', Print []]\<rparr>,
                    (ts + 1) mod 2 ^ 32, (tt + 1) mod 2 ^ 32))
        else Inr (st2\<lparr>trace := trace st2 @ [Print []]\<rparr>, (ts + 1) mod 2 ^ 32, tt)) \<and>
     (time_remains st0 \<and> (ts + 1) mod 2 ^ 32 mod 30 \<noteq> 0 \<longrightarrow>
        time_loop lib (st0, ts, tt) =
          time_loop lib (st2\<lparr>trace := trace st2 @ [Print []]\<rparr>, (ts + 1) mod 2 ^ 32, tt)) \<and>
     (n = n_max_iters \<and> exceeds rn residual_tolerance \<longrightarrow>
        Newton_line 999 1000 rn \<in> set (trace st2))"
proof (intro impI conjI)
  assume l: "newton_loop lib (step_start st0 ts) 0 (Number (residual_tolerance + 1)) =
      Inr (st2, n, rn)"
  then show n: "solve_newton lib (step_start st0 ts) = Inr st2"
    by (simp add: solve_newton_def)
  show b: "time_step_body lib (st0, ts, tt) =
       (if (ts + 1) mod 2 ^ 32 mod 30 = 0 then
          (case write_output (st2\<lparr>trace := trace st2 @ [Timer_enter ''Writing'']\<rparr>) tt (time st2) of
             Inl e \<Rightarrow> Inl e
           | Inr st3 \<Rightarrow>
               Inr (st3\<lparr>trace := trace st3 @ [Timer_leave ''Writing'', Print []]\<rparr>,
                    (ts + 1) mod 2 ^ 32, (tt + 1) mod 2 ^ 32))
        else Inr (st2\<lparr>trace := trace st2 @ [Print []]\<rparr>, (ts + 1) mod 2 ^ 32, tt))"
    unfolding time_step_body_unfold n by simp
  {
    assume "time_remains st0 \<and> (ts + 1) mod 2 ^ 32 mod 30 \<noteq> 0"
    then show "time_loop lib (st0, ts, tt) =
          time_loop lib (st2\<lparr>trace := trace st2 @ [Print []]\<rparr>, (ts + 1) mod 2 ^ 32, tt)"
      by (simp add: time_loop_step b)
  }
  {
    assume "n = n_max_iters \<and> exceeds rn residual_tolerance"
    then have "0 < n" by (simp add: n_max_iters_def)
    with newton_loop_last [OF l] have "Newton_line (n - 1) n_max_iters rn \<in> set (trace st2)"
      by simp
    with \<open>n = n_max_iters \<and> exceeds rn residual_tolerance\<close>
    show "Newton_line 999 1000 rn \<in> set (trace st2)"
      by (simp add: n_max_iters_def)
  }
qed

theorem newton_divergence_unreported_witness:
  "time_remains diverging_state \<and>
   (\<exists>st2 rn. newton_loop (one_cell (\<lambda>a. 0)) (step_start diverging_state 0) 0
        (Number (residual_tolerance + 1)) = Inr (st2, n_max_iters, rn) \<and>
      exceeds rn residual_tolerance \<and>
      time_step_body (one_cell (\<lambda>a. 0)) (diverging_state, 0, 1) =
        Inr (st2\<lparr>trace := trace st2 @ [Print []]\<rparr>, 1, 1) \<and>
      time_loop (one_cell (\<lambda>a. 0)) (diverging_state, 0, 1) =
        time_loop (one_cell (\<lambda>a. 0)) (st2\<lparr>trace := trace st2 @ [Print []]\<rparr>, 1, 1) \<and>
      Newton_line 999 1000 rn \<in> set (trace st2))"
proof -
  let ?lib = "one_cell (\<lambda>a. 0)"
  from diverging_sweep obtain st2 rn
    where l: "newton_loop ?lib (step_start diverging_state 0) 0
        (Number (residual_tolerance + 1)) = Inr (st2, n_max_iters, rn)"
      and e: "exceeds rn residual_tolerance"
    by blast
  have g: "time_remains diverging_state"
    using unit_step_guards(1) by (simp add: time_remains_def diverging_state_fields)
  note th = newton_divergence_unreported [where lib = ?lib and ?st0.0 = diverging_state
      and ts = 0 and tt = 1 and ?st2.0 = st2 and n = n_max_iters and rn = rn, rule_format, OF l]
  from th have b: "time_step_body ?lib (diverging_state, 0, 1) =
        Inr (st2\<lparr>trace := trace st2 @ [Print []]\<rparr>, 1, 1)"
    by simp
  from th g have c: "time_loop ?lib (diverging_state, 0, 1) =
        time_loop ?lib (st2\<lparr>trace := trace st2 @ [Print []]\<rparr>, 1, 1)"
    by simp
  from th e have d: "Newton_line 999 1000 rn \<in> set (trace st2)"
    by simp
  from l e b c d have "\<exists>st2 rn. newton_loop ?lib (step_start diverging_state 0) 0
        (Number (residual_tolerance + 1)) = Inr (st2, n_max_iters, rn) \<and>
      exceeds rn residual_tolerance \<and>
      time_step_body ?lib (diverging_state, 0, 1) =
        Inr (st2\<lparr>trace := trace st2 @ [Print []]\<rparr>, 1, 1) \<and>
      time_loop ?lib (diverging_state, 0, 1) =
        time_loop ?lib (st2\<lparr>trace := trace st2 @ [Print []]\<rparr>, 1, 1) \<and>
      Newton_line 999 1000 rn \<in> set (trace st2)"
    by (intro exI [of _ st2] exI [of _ rn] conjI)
  with g show ?thesis ..
qed

end
